theory Spec2Isabelle
  imports Complex_Main
begin

section \<open>Errors and arrays\<close>

text \<open>
  The example notebooks define two functions of their own, \<open>get_data\<close> and
  \<open>accuracy\<close> (docs/examples/spa-retrieval.ipynb); everything else is a sequence of
  calls on library objects. The functions work on numpy arrays. An exception raised while
  they run is a value \<open>Inl e\<close> of the result.
\<close>

datatype error =
  IndexError | ValueError | KeyError | SyntaxError | SpaParseError | ValidationError
  | RecursionError | MemoryError

text \<open>
  A numpy array is its shape and its elements. The element function is only ever read
  inside the shape. The scalar type \<open>'a\<close> stands for float64 without NaN entries: the
  operations use its \<open>0\<close>, \<open>+\<close>, \<open>*\<close>, equality and order, and no law about them.
\<close>

record 'a arr1 =
  len1 :: nat
  at1 :: "nat \<Rightarrow> 'a"

record 'a arr2 =
  rows2 :: nat
  cols2 :: nat
  at2 :: "nat \<Rightarrow> nat \<Rightarrow> 'a"

record 'a arr3 =
  dim0 :: nat
  dim1 :: nat
  dim2 :: nat
  at3 :: "nat \<Rightarrow> nat \<Rightarrow> nat \<Rightarrow> 'a"

text \<open>The value of \<open>np.mean\<close>: a float, NaN for the mean of no elements.\<close>

datatype npfloat = NaN | Finite rat

section \<open>The numpy operations used by \<open>accuracy\<close>\<close>

text \<open>\<open>a[:, t, :]\<close>: a negative index counts from the end, an index out of range raises.\<close>

definition take_step :: "'a arr3 \<Rightarrow> int \<Rightarrow> error + 'a arr2" where
  "take_step a t =
     (let n = int (dim1 a); j = (if t < 0 then n + t else t)
      in if 0 \<le> j \<and> j < n
         then Inr \<lparr>rows2 = dim0 a, cols2 = dim2 a, at2 = (\<lambda>i k. at3 a i (nat j) k)\<rparr>
         else Inl IndexError)"

text \<open>\<open>a.T\<close>\<close>

definition transpose2 :: "'a arr2 \<Rightarrow> 'a arr2" where
  "transpose2 a = \<lparr>rows2 = cols2 a, cols2 = rows2 a, at2 = (\<lambda>i j. at2 a j i)\<rparr>"

text \<open>
  The similarity of two vectors of length \<open>d\<close>: the sum of the products, here added
  from the first component on (the order in which \<open>np.dot\<close> adds is the library's).
\<close>

definition dot :: "nat \<Rightarrow> (nat \<Rightarrow> 'a) \<Rightarrow> (nat \<Rightarrow> 'a) \<Rightarrow> 'a::{zero,plus,times}" where
  "dot d u v = foldl (\<lambda>s k. s + u k * v k) 0 [0..<d]"

text \<open>\<open>np.dot(a, b)\<close> of two matrices: the inner dimensions must agree.\<close>

definition np_dot :: "'a arr2 \<Rightarrow> 'a arr2 \<Rightarrow> error + ('a::{zero,plus,times}) arr2" where
  "np_dot a b =
     (if cols2 a \<noteq> rows2 b then Inl ValueError
      else Inr \<lparr>rows2 = rows2 a, cols2 = cols2 b,
                at2 = (\<lambda>i j. dot (cols2 a) (at2 a i) (\<lambda>k. at2 b k j))\<rparr>)"

text \<open>
  \<open>np.argmax\<close> of a sequence: the first index that holds the greatest value. The scan
  keeps the best index \<open>bi\<close> and its value \<open>bv\<close>, and moves on a strictly greater value.
\<close>

fun argmax_scan :: "'a::linorder list \<Rightarrow> nat \<Rightarrow> nat \<Rightarrow> 'a \<Rightarrow> nat" where
  "argmax_scan [] i bi bv = bi"
| "argmax_scan (x # xs) i bi bv =
     (if bv < x then argmax_scan xs (Suc i) i x else argmax_scan xs (Suc i) bi bv)"

definition argmax_list :: "'a::linorder list \<Rightarrow> nat" where
  "argmax_list xs = (case xs of [] \<Rightarrow> 0 | x # ys \<Rightarrow> argmax_scan ys 1 0 x)"

text \<open>\<open>np.argmax(a, axis=0)\<close>: one index per column; a matrix with no row raises.\<close>

definition np_argmax0 :: "('a::linorder) arr2 \<Rightarrow> error + nat arr1" where
  "np_argmax0 a =
     (if rows2 a = 0 then Inl ValueError
      else Inr \<lparr>len1 = cols2 a,
                at1 = (\<lambda>j. argmax_list (map (\<lambda>i. at2 a i j) [0..<rows2 a]))\<rparr>)"

text \<open>\<open>a[idxs]\<close> with an array of row indices: an index out of range raises.\<close>

definition take_rows :: "'a arr2 \<Rightarrow> nat arr1 \<Rightarrow> error + 'a arr2" where
  "take_rows a idxs =
     (if list_all (\<lambda>j. at1 idxs j < rows2 a) [0..<len1 idxs]
      then Inr \<lparr>rows2 = len1 idxs, cols2 = cols2 a, at2 = (\<lambda>i k. at2 a (at1 idxs i) k)\<rparr>
      else Inl IndexError)"

text \<open>\<open>a[:, 0]\<close> of a three-dimensional array: raises when the second axis is empty.\<close>

definition first_step :: "'a arr3 \<Rightarrow> error + 'a arr2" where
  "first_step a =
     (if dim1 a = 0 then Inl IndexError
      else Inr \<lparr>rows2 = dim0 a, cols2 = dim2 a, at2 = (\<lambda>i k. at3 a i 0 k)\<rparr>)"

text \<open>
  Broadcasting of one axis: equal lengths, or one of them 1. The elementwise \<open>==\<close> of two
  matrices broadcasts both axes; shapes that do not broadcast end in an exception (in
  \<open>==\<close> itself, or in the \<open>np.all(..., axis=1)\<close> that follows, depending on the numpy
  version).
\<close>

definition broadcast_dim :: "nat \<Rightarrow> nat \<Rightarrow> nat option" where
  "broadcast_dim n m =
     (if n = m then Some n else if n = 1 then Some m else if m = 1 then Some n else None)"

definition bidx :: "nat \<Rightarrow> nat \<Rightarrow> nat" where
  "bidx n i = (if n = 1 then 0 else i)"

definition np_equal :: "'a arr2 \<Rightarrow> 'a arr2 \<Rightarrow> error + bool arr2" where
  "np_equal a b =
     (case (broadcast_dim (rows2 a) (rows2 b), broadcast_dim (cols2 a) (cols2 b)) of
        (Some r, Some c) \<Rightarrow>
          Inr \<lparr>rows2 = r, cols2 = c,
               at2 = (\<lambda>i k. at2 a (bidx (rows2 a) i) (bidx (cols2 a) k)
                            = at2 b (bidx (rows2 b) i) (bidx (cols2 b) k))\<rparr>
      | _ \<Rightarrow> Inl ValueError)"

text \<open>\<open>np.all(a, axis=1)\<close>\<close>

definition np_all1 :: "bool arr2 \<Rightarrow> bool arr1" where
  "np_all1 a = \<lparr>len1 = rows2 a, at1 = (\<lambda>i. list_all (at2 a i) [0..<cols2 a])\<rparr>"

text \<open>
  \<open>np.mean\<close> of booleans: the number of true entries over the number of entries, NaN
  (with a warning) when there is no entry. The float returned is this quotient rounded.
\<close>

definition np_mean :: "bool arr1 \<Rightarrow> npfloat" where
  "np_mean a =
     (if len1 a = 0 then NaN
      else Finite (of_nat (length (filter (at1 a) [0..<len1 a])) / of_nat (len1 a)))"

section \<open>Exceptions as results\<close>

definition bind_err :: "error + 'a \<Rightarrow> ('a \<Rightarrow> error + 'b) \<Rightarrow> error + 'b" where
  "bind_err m f = (case m of Inl e \<Rightarrow> Inl e | Inr x \<Rightarrow> f x)"

section \<open>The vocabulary of semantic pointers\<close>

text \<open>
  A \<open>spa.Vocabulary\<close> of the simulation library, as far as the examples read and write
  it: its dimension, the random generator it draws new pointers from (the module's own
  generator \<open>np.random\<close>, or a \<open>RandomState\<close> object), its similarity bound, the keys in
  the order they were added, the pointer of each key, and the matrix \<open>vectors\<close> with one
  row per key.
\<close>

datatype rng_ref = NpRandom | RngObj nat

record 'a vocabulary =
  dimensions :: nat
  rng :: rng_ref
  max_similarity :: 'a
  keys :: "string list"
  pointers :: "string \<rightharpoonup> 'a arr1"
  vectors :: "'a arr2"

section \<open>\<open>accuracy\<close>\<close>

text \<open>
  \<^verbatim>\<open>
  def accuracy(output, vocab, targets, t_step=-1):
      output = output[:, t_step, :]
      sims = np.dot(vocab.vectors, output.T)
      idxs = np.argmax(sims, axis=0)
      acc = np.mean(np.all(vocab.vectors[idxs] == targets[:, 0], axis=1))
      return acc
  \<close>
\<close>

definition accuracy ::
  "('a::{zero,plus,times,linorder}) arr3 \<Rightarrow> 'a vocabulary \<Rightarrow> 'a arr3 \<Rightarrow> int
     \<Rightarrow> error + npfloat" where
  "accuracy output vocab targets t_step =
     bind_err (take_step output t_step) (\<lambda>out.
     bind_err (np_dot (vectors vocab) (transpose2 out)) (\<lambda>sims.
     bind_err (np_argmax0 sims) (\<lambda>idxs.
     bind_err (take_rows (vectors vocab) idxs) (\<lambda>best.
     bind_err (first_step targets) (\<lambda>tgt.
     bind_err (np_equal best tgt) (\<lambda>eqs.
     Inr (np_mean (np_all1 eqs))))))))"

section \<open>Random generators and the limits of the libraries\<close>

text \<open>
  The generators live in the interpreter's state: the module-level generator \<open>np.random\<close>
  and the \<open>RandomState\<close> objects created so far, each with a state of type \<open>'g\<close>. An
  object is shared by everything that holds its address: in \<open>get_data\<close>, the vocabulary
  and the function body draw from the same object. A generator created without a seed
  takes its state from the operating system's entropy: \<open>os_entropy w k\<close> is the state
  the \<open>k\<close>-th such generator gets, \<open>n_seeded\<close> counts them.
\<close>

record 'g world =
  np_random :: 'g
  rng_objs :: "nat \<Rightarrow> 'g"
  n_objs :: nat
  os_entropy :: "nat \<Rightarrow> 'g"
  n_seeded :: nat

definition rng_state :: "'g world \<Rightarrow> rng_ref \<Rightarrow> 'g" where
  "rng_state w r = (case r of NpRandom \<Rightarrow> np_random w | RngObj a \<Rightarrow> rng_objs w a)"

definition rng_put :: "'g world \<Rightarrow> rng_ref \<Rightarrow> 'g \<Rightarrow> 'g world" where
  "rng_put w r g =
     (case r of NpRandom \<Rightarrow> w\<lparr>np_random := g\<rparr>
      | RngObj a \<Rightarrow> w\<lparr>rng_objs := (rng_objs w)(a := g)\<rparr>)"

text \<open>
  What the libraries compute and the notebooks do not define is a parameter: the state a
  seed gives a generator, the integer and the next state of a \<open>randint\<close> draw, the vector
  and the next state of \<open>Vocabulary.create_pointer\<close> (which reads the dimension, the
  similarity bound and the vectors already present), the circular convolution of two
  vectors of one length (and what \<open>convolve\<close> does with two lengths), and the vector
  \<open>normalize\<close> leaves. So are the limits of the libraries and of the interpreter:
  the exception, if any, with which \<open>np.zeros\<close> refuses a shape whose dimensions the
  index type holds (a size beyond the index type, no memory), the nesting depth up to
  which \<open>eval\<close> compiles an expression (about 3000 in CPython 3.11 with the default
  recursion limit), and the greatest bound \<open>randint\<close> accepts (2^63 with the default
  64-bit integers). No other allocation is modelled to fail.
\<close>

record ('a, 'g) library =
  seed_state :: "int \<Rightarrow> 'g"
  randint_value :: "'g \<Rightarrow> nat \<Rightarrow> nat"
  randint_next :: "'g \<Rightarrow> nat \<Rightarrow> 'g"
  pointer_value :: "'g \<Rightarrow> nat \<Rightarrow> 'a \<Rightarrow> 'a arr2 \<Rightarrow> nat \<Rightarrow> 'a"
  pointer_next :: "'g \<Rightarrow> nat \<Rightarrow> 'a \<Rightarrow> 'a arr2 \<Rightarrow> 'g"
  convolve :: "nat \<Rightarrow> (nat \<Rightarrow> 'a) \<Rightarrow> (nat \<Rightarrow> 'a) \<Rightarrow> nat \<Rightarrow> 'a"
  convolve_other :: "'a arr1 \<Rightarrow> 'a arr1 \<Rightarrow> error + 'a arr1"
  normalized :: "nat \<Rightarrow> (nat \<Rightarrow> 'a) \<Rightarrow> nat \<Rightarrow> 'a"
  zeros_error :: "nat list \<Rightarrow> error option"
  max_expr_depth :: nat
  randint_max :: int

text \<open>
  Whether \<open>np.zeros\<close> creates an array of a shape of natural numbers: a dimension of
  2^63 or more does not fit the index type and raises ValueError; below that the library
  decides.
\<close>

definition zeros_check :: "('a, 'g) library \<Rightarrow> nat list \<Rightarrow> error option" where
  "zeros_check lib dims =
     (if list_ex (\<lambda>d. 2 ^ 63 \<le> int d) dims then Some ValueError else zeros_error lib dims)"

text \<open>
  \<open>np.random.RandomState(seed)\<close>: a new object. The seed is \<open>None\<close> or an integer; an
  integer must fit 32 bits, and \<open>None\<close> seeds the generator from the operating system.
\<close>

definition valid_seed :: "int option \<Rightarrow> bool" where
  "valid_seed seed = (case seed of None \<Rightarrow> True | Some s \<Rightarrow> 0 \<le> s \<and> s < 2 ^ 32)"

definition RandomState ::
  "('a, 'g) library \<Rightarrow> 'g world \<Rightarrow> int option \<Rightarrow> error + (rng_ref \<times> 'g world)" where
  "RandomState lib w seed =
     (case seed of
        None \<Rightarrow>
          Inr (RngObj (n_objs w),
               w\<lparr>rng_objs := (rng_objs w)(n_objs w := os_entropy w (n_seeded w)),
                 n_objs := Suc (n_objs w), n_seeded := Suc (n_seeded w)\<rparr>)
      | Some s \<Rightarrow>
          if valid_seed (Some s)
          then Inr (RngObj (n_objs w),
                    w\<lparr>rng_objs := (rng_objs w)(n_objs w := seed_state lib s),
                      n_objs := Suc (n_objs w)\<rparr>)
          else Inl ValueError)"

text \<open>
  \<open>rng.randint(high)\<close>: an integer of [0, high); raises unless 0 < high and high is
  within the bound of the integer type.
\<close>

definition randint ::
  "('a, 'g) library \<Rightarrow> 'g world \<Rightarrow> rng_ref \<Rightarrow> int \<Rightarrow> error + (nat \<times> 'g world)" where
  "randint lib w r high =
     (if high \<le> 0 \<or> randint_max lib < high then Inl ValueError
      else Inr (randint_value lib (rng_state w r) (nat high) mod nat high,
                rng_put w r (randint_next lib (rng_state w r) (nat high))))"

section \<open>Semantic pointers and the vocabulary's methods\<close>

text \<open>
  \<open>a + b\<close> of two pointers adds their vectors, \<open>add_vec\<close> for vectors of one length
  (numpy broadcasts a vector of length 1); \<open>a * b\<close> is their circular convolution,
  \<open>bind_vec\<close> for vectors of one length; \<open>p.normalize()\<close> rescales the vector.
\<close>

definition add_vec :: "('a::plus) arr1 \<Rightarrow> 'a arr1 \<Rightarrow> 'a arr1" where
  "add_vec a b = \<lparr>len1 = len1 a, at1 = (\<lambda>k. at1 a k + at1 b k)\<rparr>"

text \<open>The sum of a list of vectors with a first element, from the left.\<close>

definition superpose :: "('a::plus) arr1 list \<Rightarrow> 'a arr1" where
  "superpose xs = foldl add_vec (hd xs) (tl xs)"

definition sp_add :: "('a::plus) arr1 \<Rightarrow> 'a arr1 \<Rightarrow> error + 'a arr1" where
  "sp_add a b =
     (if len1 a = len1 b then Inr (add_vec a b)
      else if len1 a = 1 then Inr \<lparr>len1 = len1 b, at1 = (\<lambda>k. at1 a 0 + at1 b k)\<rparr>
      else if len1 b = 1 then Inr \<lparr>len1 = len1 a, at1 = (\<lambda>k. at1 a k + at1 b 0)\<rparr>
      else Inl ValueError)"

definition bind_vec :: "('a, 'g) library \<Rightarrow> 'a arr1 \<Rightarrow> 'a arr1 \<Rightarrow> 'a arr1" where
  "bind_vec lib a b = \<lparr>len1 = len1 a, at1 = convolve lib (len1 a) (at1 a) (at1 b)\<rparr>"

definition sp_mul :: "('a, 'g) library \<Rightarrow> 'a arr1 \<Rightarrow> 'a arr1 \<Rightarrow> error + 'a arr1" where
  "sp_mul lib a b = (if len1 a = len1 b then Inr (bind_vec lib a b) else convolve_other lib a b)"

definition normalize :: "('a, 'g) library \<Rightarrow> 'a arr1 \<Rightarrow> 'a arr1" where
  "normalize lib p = \<lparr>len1 = len1 p, at1 = normalized lib (len1 p) (at1 p)\<rparr>"

text \<open>
  \<open>spa.Vocabulary(dimensions=d, rng=r, max_similarity=ms)\<close>: the dimension is at least
  1; no key, and a matrix \<open>np.zeros((0, d))\<close> of no row.
\<close>

definition Vocabulary ::
  "('a, 'g) library \<Rightarrow> int \<Rightarrow> rng_ref \<Rightarrow> 'a \<Rightarrow> error + ('a::zero) vocabulary" where
  "Vocabulary lib d r ms =
     (if d < 1 then Inl ValidationError
      else case zeros_check lib [0, nat d] of
        Some e \<Rightarrow> Inl e
      | None \<Rightarrow>
          Inr \<lparr>dimensions = nat d, rng = r, max_similarity = ms, keys = [],
               pointers = Map.empty,
               vectors = \<lparr>rows2 = 0, cols2 = nat d, at2 = (\<lambda>i k. 0)\<rparr>\<rparr>)"

text \<open>\<open>np.vstack([a, v])\<close>: one more row; the lengths must agree.\<close>

definition vstack :: "'a arr2 \<Rightarrow> 'a arr1 \<Rightarrow> error + 'a arr2" where
  "vstack a v =
     (if len1 v \<noteq> cols2 a then Inl ValueError
      else Inr \<lparr>rows2 = Suc (rows2 a), cols2 = cols2 a,
                at2 = (\<lambda>i k. if i = rows2 a then at1 v k else at2 a i k)\<rparr>)"

definition is_upper :: "char \<Rightarrow> bool" where
  "is_upper c = (c \<in> set ''ABCDEFGHIJKLMNOPQRSTUVWXYZ'')"

definition is_lower :: "char \<Rightarrow> bool" where
  "is_lower c = (c \<in> set ''abcdefghijklmnopqrstuvwxyz'')"

definition is_digit :: "char \<Rightarrow> bool" where
  "is_digit c = (c \<in> set ''0123456789'')"

text \<open>
  \<open>vocab.add(key, p)\<close>: a key starts with a capital letter and is new; the pointer joins
  the dictionary, the key list and the matrix.
\<close>

definition vocab_add :: "'a vocabulary \<Rightarrow> string \<Rightarrow> 'a arr1 \<Rightarrow> error + 'a vocabulary" where
  "vocab_add v key p =
     (case key of
        [] \<Rightarrow> Inl IndexError
      | c # _ \<Rightarrow>
          if \<not> is_upper c then Inl SpaParseError
          else if pointers v key \<noteq> None then Inl ValidationError
          else bind_err (vstack (vectors v) p) (\<lambda>m.
               Inr (v\<lparr>keys := keys v @ [key], pointers := (pointers v)(key \<mapsto> p),
                      vectors := m\<rparr>)))"

text \<open>
  \<open>vocab[key]\<close>: the pointer of a known key; for a new key a pointer is created from the
  vocabulary's generator and added.
\<close>

definition vocab_getitem ::
  "('a, 'g) library \<Rightarrow> 'g world \<Rightarrow> 'a vocabulary \<Rightarrow> string
     \<Rightarrow> error + ('a arr1 \<times> 'a vocabulary \<times> 'g world)" where
  "vocab_getitem lib w v key =
     (case pointers v key of
        Some p \<Rightarrow> Inr (p, v, w)
      | None \<Rightarrow>
          (let g = rng_state w (rng v);
               p = \<lparr>len1 = dimensions v,
                    at1 = pointer_value lib g (dimensions v) (max_similarity v) (vectors v)\<rparr>;
               w' = rng_put w (rng v)
                      (pointer_next lib g (dimensions v) (max_similarity v) (vectors v))
           in bind_err (vocab_add v key p) (\<lambda>v'. Inr (p, v', w'))))"

section \<open>\<open>Vocabulary.parse\<close> on sums of products of names\<close>

text \<open>
  \<open>vocab.parse(text)\<close> evaluates the text as a Python expression whose names are looked
  up in the vocabulary. \<open>get_data\<close> passes sums of products of names, and the model reads
  this fragment (any other text is a syntax error here): the text splits at \<open>+\<close> into
  terms, a term at \<open>*\<close> into factors, and a factor is a name between optional blanks.
  The text is checked as a whole before anything is evaluated; the names are then looked
  up from left to right, each product and the sum associating to the left. \<open>eval\<close>
  compiles the expression first and raises RecursionError, which \<open>parse\<close> does not catch,
  when the expression is nested too deeply: a product of \<open>k\<close> names is nested \<open>k\<close> deep,
  and each further term of a sum puts the sum before it one level down.
\<close>

fun split_on :: "char \<Rightarrow> string \<Rightarrow> string list" where
  "split_on c [] = [[]]"
| "split_on c (x # xs) =
     (if x = c then [] # split_on c xs
      else (case split_on c xs of [] \<Rightarrow> [[x]] | y # ys \<Rightarrow> (x # y) # ys))"

definition is_blank :: "char \<Rightarrow> bool" where
  "is_blank c = (c = CHR '' '' \<or> c = CHR 0x09)"

definition strip :: "string \<Rightarrow> string" where
  "strip s = rev (dropWhile is_blank (rev (dropWhile is_blank s)))"

definition is_identifier :: "string \<Rightarrow> bool" where
  "is_identifier s =
     (case s of
        [] \<Rightarrow> False
      | c # _ \<Rightarrow>
          (is_upper c \<or> is_lower c \<or> c = CHR ''_'') \<and>
          list_all (\<lambda>x. is_upper x \<or> is_lower x \<or> is_digit x \<or> x = CHR ''_'') s)"

definition parse_text :: "string \<Rightarrow> error + string list list" where
  "parse_text text =
     (let terms = map (\<lambda>t. map strip (split_on CHR ''*'' t)) (split_on CHR ''+'' text)
      in if list_all (list_all is_identifier) terms then Inr terms else Inl SyntaxError)"

fun eval_product ::
  "('a, 'g) library \<Rightarrow> 'g world \<Rightarrow> 'a vocabulary \<Rightarrow> 'a arr1 \<Rightarrow> string list
     \<Rightarrow> error + ('a arr1 \<times> 'a vocabulary \<times> 'g world)" where
  "eval_product lib w v acc [] = Inr (acc, v, w)"
| "eval_product lib w v acc (f # fs) =
     bind_err (vocab_getitem lib w v f) (\<lambda>(p, v', w').
     bind_err (sp_mul lib acc p) (\<lambda>acc'.
     eval_product lib w' v' acc' fs))"

definition eval_term ::
  "('a, 'g) library \<Rightarrow> 'g world \<Rightarrow> 'a vocabulary \<Rightarrow> string list
     \<Rightarrow> error + ('a arr1 \<times> 'a vocabulary \<times> 'g world)" where
  "eval_term lib w v fs =
     (case fs of
        [] \<Rightarrow> Inl SyntaxError
      | f # rest \<Rightarrow>
          bind_err (vocab_getitem lib w v f) (\<lambda>(p, v', w'). eval_product lib w' v' p rest))"

fun eval_sum ::
  "('a::plus, 'g) library \<Rightarrow> 'g world \<Rightarrow> 'a vocabulary \<Rightarrow> 'a arr1 \<Rightarrow> string list list
     \<Rightarrow> error + ('a arr1 \<times> 'a vocabulary \<times> 'g world)" where
  "eval_sum lib w v acc [] = Inr (acc, v, w)"
| "eval_sum lib w v acc (t # ts) =
     bind_err (eval_term lib w v t) (\<lambda>(p, v', w').
     bind_err (sp_add acc p) (\<lambda>acc'.
     eval_sum lib w' v' acc' ts))"

definition expr_depth :: "string list list \<Rightarrow> nat" where
  "expr_depth terms =
     (case terms of
        [] \<Rightarrow> 0
      | t # ts \<Rightarrow> foldl (\<lambda>d u. Suc (max d (length u))) (length t) ts)"

definition vocab_parse ::
  "('a::plus, 'g) library \<Rightarrow> 'g world \<Rightarrow> 'a vocabulary \<Rightarrow> string
     \<Rightarrow> error + ('a arr1 \<times> 'a vocabulary \<times> 'g world)" where
  "vocab_parse lib w v text =
     bind_err (parse_text text) (\<lambda>terms.
       if max_expr_depth lib < expr_depth terms then Inl RecursionError
       else case terms of
         [] \<Rightarrow> Inl SyntaxError
       | t # ts \<Rightarrow>
           bind_err (eval_term lib w v t) (\<lambda>(p, v', w'). eval_sum lib w' v' p ts))"

section \<open>\<open>get_data\<close>\<close>

text \<open>\<open>str(n)\<close> of a natural number: its decimal digits.\<close>

definition digit_char :: "nat \<Rightarrow> char" where
  "digit_char d = ''0123456789'' ! d"

fun str_nat :: "nat \<Rightarrow> string" where
  "str_nat n = (if n < 10 then [digit_char n] else str_nat (n div 10) @ [digit_char (n mod 10)])"

declare str_nat.simps [simp del]

text \<open>\<open>sep.join(xs)\<close>\<close>

fun join :: "string \<Rightarrow> string list \<Rightarrow> string" where
  "join sep [] = []"
| "join sep [x] = x"
| "join sep (x # y # ys) = x @ sep @ join sep (y # ys)"

text \<open>
  \<open>np.zeros((a, b, c))\<close>: a negative dimension raises, and so does a shape the library
  cannot create.
\<close>

definition np_zeros ::
  "('a, 'g) library \<Rightarrow> int \<Rightarrow> int \<Rightarrow> int \<Rightarrow> error + ('a::zero) arr3" where
  "np_zeros lib a b c =
     (if a < 0 \<or> b < 0 \<or> c < 0 then Inl ValueError
      else case zeros_check lib [nat a, nat b, nat c] of
        Some e \<Rightarrow> Inl e
      | None \<Rightarrow> Inr \<lparr>dim0 = nat a, dim1 = nat b, dim2 = nat c, at3 = (\<lambda>i j k. 0)\<rparr>)"

text \<open>
  \<open>a[n, m, :] = v\<close>: the indices must be inside the array, the vector as long as the last
  axis (or of length 1, which numpy broadcasts).
\<close>

definition set_row :: "'a arr3 \<Rightarrow> nat \<Rightarrow> nat \<Rightarrow> 'a arr1 \<Rightarrow> error + 'a arr3" where
  "set_row a n m v =
     (if dim0 a \<le> n \<or> dim1 a \<le> m then Inl IndexError
      else if len1 v = dim2 a
        then Inr (a\<lparr>at3 := (\<lambda>i j k. if i = n \<and> j = m then at1 v k else at3 a i j k)\<rparr>)
      else if len1 v = 1
        then Inr (a\<lparr>at3 := (\<lambda>i j k. if i = n \<and> j = m then at1 v 0 else at3 a i j k)\<rparr>)
      else Inl ValueError)"

text \<open>The names \<open>f"ROLE_{n}_{i}"\<close>, \<open>f"FILLER_{n}_{i}"\<close> and \<open>"TRACE_" + str(n)\<close>.\<close>

definition role_name :: "nat \<Rightarrow> nat \<Rightarrow> string" where
  "role_name n i = ''ROLE_'' @ str_nat n @ ''_'' @ str_nat i"

definition filler_name :: "nat \<Rightarrow> nat \<Rightarrow> string" where
  "filler_name n i = ''FILLER_'' @ str_nat n @ ''_'' @ str_nat i"

definition trace_name :: "nat \<Rightarrow> string" where
  "trace_name n = ''TRACE_'' @ str_nat n"

text \<open>
  \<^verbatim>\<open>
  def get_data(n_items, pairs_per_item, vec_d, vocab_seed):
      rng = np.random.RandomState(vocab_seed)
      vocab = spa.Vocabulary(dimensions=vec_d, rng=rng, max_similarity=1)
      traces = np.zeros((n_items, 1, vec_d))
      cues = np.zeros((n_items, 1, vec_d))
      targets = np.zeros((n_items, 1, vec_d))
      for n in range(n_items):
          role_names = [f"ROLE_{n}_{i}" for i in range(pairs_per_item)]
          filler_names = [f"FILLER_{n}_{i}" for i in range(pairs_per_item)]
          trace_key = "TRACE_" + str(n)
          trace_ptr = vocab.parse(
              "+".join(f"{x} * {y}" for x, y in zip(role_names, filler_names)))
          trace_ptr.normalize()
          vocab.add(trace_key, trace_ptr)
          cue_idx = rng.randint(pairs_per_item)
          traces[n, 0, :] = vocab[trace_key].v
          cues[n, 0, :] = vocab[f"ROLE_{n}_{cue_idx}"].v
          targets[n, 0, :] = vocab[f"FILLER_{n}_{cue_idx}"].v
      return traces, cues, targets, vocab
  \<close>
  The numbers are Python integers, the seed an integer or \<open>None\<close>. The variables the
  loop changes are the interpreter's generators, the vocabulary and the three arrays.
  The pointer \<open>parse\<close> returns for a product or a sum is a new object, so normalizing it
  changes no pointer of the vocabulary.
\<close>

record ('a, 'g) loop_state =
  st_world :: "'g world"
  st_vocab :: "'a vocabulary"
  st_traces :: "'a arr3"
  st_cues :: "'a arr3"
  st_targets :: "'a arr3"

definition trace_text :: "int \<Rightarrow> nat \<Rightarrow> string" where
  "trace_text pairs_per_item n =
     (let role_names = map (role_name n) [0..<nat pairs_per_item];
          filler_names = map (filler_name n) [0..<nat pairs_per_item]
      in join ''+'' (map (\<lambda>(x, y). x @ '' * '' @ y) (zip role_names filler_names)))"

definition get_data_item ::
  "('a::plus, 'g) library \<Rightarrow> int \<Rightarrow> rng_ref \<Rightarrow> nat \<Rightarrow> ('a, 'g) loop_state
     \<Rightarrow> error + ('a, 'g) loop_state" where
  "get_data_item lib pairs_per_item r n st =
     (let trace_key = trace_name n in
      bind_err (vocab_parse lib (st_world st) (st_vocab st) (trace_text pairs_per_item n))
        (\<lambda>(trace_ptr, v1, w1).
      let trace_ptr = normalize lib trace_ptr in
      bind_err (vocab_add v1 trace_key trace_ptr) (\<lambda>v2.
      bind_err (randint lib w1 r pairs_per_item) (\<lambda>(cue_idx, w2).
      bind_err (vocab_getitem lib w2 v2 trace_key) (\<lambda>(p, v3, w3).
      bind_err (set_row (st_traces st) n 0 p) (\<lambda>traces.
      bind_err (vocab_getitem lib w3 v3 (role_name n cue_idx)) (\<lambda>(c, v4, w4).
      bind_err (set_row (st_cues st) n 0 c) (\<lambda>cues.
      bind_err (vocab_getitem lib w4 v4 (filler_name n cue_idx)) (\<lambda>(t, v5, w5).
      bind_err (set_row (st_targets st) n 0 t) (\<lambda>targets.
      Inr \<lparr>st_world = w5, st_vocab = v5, st_traces = traces, st_cues = cues,
           st_targets = targets\<rparr>))))))))))"

fun get_data_loop ::
  "('a::plus, 'g) library \<Rightarrow> int \<Rightarrow> rng_ref \<Rightarrow> nat list \<Rightarrow> ('a, 'g) loop_state
     \<Rightarrow> error + ('a, 'g) loop_state" where
  "get_data_loop lib pairs_per_item r [] st = Inr st"
| "get_data_loop lib pairs_per_item r (n # ns) st =
     bind_err (get_data_item lib pairs_per_item r n st) (get_data_loop lib pairs_per_item r ns)"

definition get_data ::
  "('a::{zero,one,plus}, 'g) library \<Rightarrow> 'g world \<Rightarrow> int \<Rightarrow> int \<Rightarrow> int \<Rightarrow> int option
     \<Rightarrow> error + (('a arr3 \<times> 'a arr3 \<times> 'a arr3 \<times> 'a vocabulary) \<times> 'g world)" where
  "get_data lib w n_items pairs_per_item vec_d vocab_seed =
     bind_err (RandomState lib w vocab_seed) (\<lambda>(r, w0).
     bind_err (Vocabulary lib vec_d r 1) (\<lambda>vocab.
     bind_err (np_zeros lib n_items 1 vec_d) (\<lambda>traces.
     bind_err (np_zeros lib n_items 1 vec_d) (\<lambda>cues.
     bind_err (np_zeros lib n_items 1 vec_d) (\<lambda>targets.
     bind_err (get_data_loop lib pairs_per_item r [0..<nat n_items]
                 \<lparr>st_world = w0, st_vocab = vocab, st_traces = traces, st_cues = cues,
                  st_targets = targets\<rparr>) (\<lambda>st.
     Inr ((st_traces st, st_cues st, st_targets st, st_vocab st), st_world st)))))))"


section \<open>The simulator's life in the notebooks\<close>

text \<open>
  Outside the two functions the notebooks are straight-line scripts. What they do with a
  simulator is a list of statements on the variable \<open>sim\<close>: \<open>sim = Simulator(...)\<close>, a
  method call or a read of \<open>sim.data\<close>, \<open>sim.close()\<close>, a block
  \<open>with Simulator(...) as sim:\<close> around method calls (the simulator is created on entry
  and closed on exit), and the one branch \<open>if do_training: ... else: ...\<close>.
\<close>

datatype sim_call =
  Step | RunSteps | Run | Predict | Compile | Fit | Evaluate
  | SaveParams | LoadParams | Trange | Data

datatype stmt =
  Create
  | Call sim_call
  | Close
  | WithSim "sim_call list"
  | IfTraining "sim_call list" "sim_call list"

datatype sim_state = Unbound | Open | Closed

text \<open>A statement's effect: the state of \<open>sim\<close> after it, and the calls made, each with
  the state the simulator was in.\<close>

fun exec_stmt :: "bool \<Rightarrow> sim_state \<Rightarrow> stmt \<Rightarrow> sim_state \<times> (sim_call \<times> sim_state) list" where
  "exec_stmt do_training s Create = (Open, [])"
| "exec_stmt do_training s (Call c) = (s, [(c, s)])"
| "exec_stmt do_training s Close = ((if s = Unbound then Unbound else Closed), [])"
| "exec_stmt do_training s (WithSim cs) = (Closed, map (\<lambda>c. (c, Open)) cs)"
| "exec_stmt do_training s (IfTraining a b) =
     (s, map (\<lambda>c. (c, s)) (if do_training then a else b))"

fun exec :: "bool \<Rightarrow> sim_state \<Rightarrow> stmt list \<Rightarrow> (sim_call \<times> sim_state) list" where
  "exec do_training s [] = []"
| "exec do_training s (x # xs) =
     snd (exec_stmt do_training s x) @ exec do_training (fst (exec_stmt do_training s x)) xs"

text \<open>
  docs/examples/spa-retrieval.ipynb: the baseline run in a \<open>with\<close> block and the reads of
  \<open>sim.data[out]\<close> after it; the simulator created without a block, trained or loaded;
  the step on the test inputs, the read and \<open>sim.close()\<close>; the last plot's read.
\<close>

definition spa_retrieval :: "stmt list" where
  "spa_retrieval =
     [WithSim [Step], Call Data, Call Data,
      Create, IfTraining [Compile, Fit, SaveParams] [LoadParams],
      Call Step, Call Data, Close,
      Call Data]"

text \<open>
  "Coming from TensorFlow to NengoDL": every simulator is the subject of a \<open>with\<close>
  block; the plots after a block read \<open>sim.trange()\<close> and \<open>sim.data\<close>.
\<close>

definition from_tensorflow :: "stmt list" where
  "from_tensorflow =
     [WithSim [Predict],
      WithSim [RunSteps],
      Call Trange, Call Data, Call Trange, Call Data, Call Trange, Call Data,
      Call Data, Call Trange,
      WithSim [Predict],
      WithSim [Compile, Fit, Evaluate, Predict],
      WithSim [RunSteps],
      Call Trange, Call Data, Call Trange, Call Data, Call Trange, Call Data,
      WithSim [RunSteps],
      Call Trange, Call Data, Call Trange, Call Data, Call Trange, Call Data]"

text \<open>"Integrating a Keras model into a Nengo network".\<close>

definition keras_model :: "stmt list" where
  "keras_model =
     [WithSim [Run], Call Trange, Call Data,
      WithSim [Compile, Evaluate],
      WithSim [Compile, Fit, Evaluate],
      WithSim [Compile, Fit, Evaluate],
      WithSim [Compile, Evaluate]]"

text \<open>
  The calls that need an open simulator: those that run, train or evaluate it, and the
  two that save and load its parameters. \<open>sim.trange()\<close> and \<open>sim.data\<close> read what a
  run has recorded, also after the simulator is closed.
\<close>

fun needs_open :: "sim_call \<Rightarrow> bool" where
  "needs_open Trange = False"
| "needs_open Data = False"
| "needs_open c = True"

definition on_open :: "(sim_call \<times> sim_state) list \<Rightarrow> bool" where
  "on_open calls = list_all (\<lambda>(c, s). if needs_open c then s = Open else True) calls"

section \<open>Invariants of \<open>get_data\<close>\<close>

text \<open>
  The predicates of the proofs below. A name is \<open>plain\<close> when it consists of capital
  letters, digits and underscores. A vocabulary is \<open>vocab_ok\<close> when its pointers and its
  matrix have the vocabulary's dimension. \<open>keyset n\<close> holds the keys the vocabulary can
  hold before item \<open>n\<close>; \<open>item_ok\<close> is what the loop has established for a finished
  item; \<open>loop_inv\<close> is the loop's invariant before item \<open>n\<close>. A number of pairs is
  \<open>pairs_ok\<close> when it is at least 1 and within the limits of \<open>eval\<close> and \<open>randint\<close>.
\<close>

definition plain :: "string \<Rightarrow> bool" where
  "plain s = list_all (\<lambda>c. is_upper c \<or> is_digit c \<or> c = CHR ''_'') s"

definition starts_upper :: "string \<Rightarrow> bool" where
  "starts_upper key = (case key of [] \<Rightarrow> False | c # _ \<Rightarrow> is_upper c)"

definition vocab_ok :: "nat \<Rightarrow> rng_ref \<Rightarrow> 'a vocabulary \<Rightarrow> bool" where
  "vocab_ok D r v =
     (dimensions v = D \<and> rng v = r \<and> cols2 (vectors v) = D \<and>
      (\<forall>key p. pointers v key = Some p \<longrightarrow> len1 p = D))"

definition keyset :: "nat \<Rightarrow> string set" where
  "keyset n = (\<Union>m i. {role_name m i, filler_name m i}) \<union> trace_name ` {..<n}"

definition item_ok ::
  "('a::plus, 'g) library \<Rightarrow> nat \<Rightarrow> nat \<Rightarrow> 'a vocabulary \<Rightarrow> 'a arr3 \<Rightarrow> 'a arr3 \<Rightarrow> 'a arr3
     \<Rightarrow> nat \<Rightarrow> bool" where
  "item_ok lib P D v tr cu ta m =
     ((\<forall>j<P. role_name m j \<in> dom (pointers v) \<and> filler_name m j \<in> dom (pointers v)) \<and>
      pointers v (trace_name m)
        = Some (normalize lib (superpose (map (\<lambda>j. bind_vec lib (the (pointers v (role_name m j)))
                                                      (the (pointers v (filler_name m j))))
                  [0..<P]))) \<and>
      (\<forall>k<D. at3 tr m 0 k = at1 (the (pointers v (trace_name m))) k) \<and>
      (\<exists>c<P. \<forall>k<D. at3 cu m 0 k = at1 (the (pointers v (role_name m c))) k \<and>
                     at3 ta m 0 k = at1 (the (pointers v (filler_name m c))) k))"

definition pairs_ok :: "('a, 'g) library \<Rightarrow> int \<Rightarrow> bool" where
  "pairs_ok lib pairs_per_item =
     (1 \<le> pairs_per_item \<and> nat pairs_per_item < max_expr_depth lib \<and>
      pairs_per_item \<le> randint_max lib)"

definition shaped :: "'a arr3 \<Rightarrow> nat \<Rightarrow> nat \<Rightarrow> nat \<Rightarrow> bool" where
  "shaped a N M D = (dim0 a = N \<and> dim1 a = M \<and> dim2 a = D)"

definition loop_inv ::
  "('a::plus, 'g) library \<Rightarrow> nat \<Rightarrow> nat \<Rightarrow> rng_ref \<Rightarrow> nat \<Rightarrow> nat \<Rightarrow> ('a, 'g) loop_state \<Rightarrow> bool"
  where
  "loop_inv lib P D r N n st =
     (vocab_ok D r (st_vocab st) \<and>
      shaped (st_traces st) N (Suc 0) D \<and> shaped (st_cues st) N (Suc 0) D \<and>
      shaped (st_targets st) N (Suc 0) D \<and>
      dom (pointers (st_vocab st)) \<subseteq> keyset n \<and>
      (\<forall>m<n. item_ok lib P D (st_vocab st) (st_traces st) (st_cues st) (st_targets st) m))"

text \<open>
  For the comparison of two calls: two vocabularies that differ only in the generator
  they refer to, in two interpreter states in which the two generators are in one state.
\<close>

definition same_run ::
  "rng_ref \<Rightarrow> rng_ref \<Rightarrow> 'a vocabulary \<times> 'g world \<Rightarrow> 'a vocabulary \<times> 'g world \<Rightarrow> bool" where
  "same_run r1 r2 x y =
     (case (x, y) of ((v1, w1), (v2, w2)) \<Rightarrow>
        rng v1 = r1 \<and> rng v2 = r2 \<and> v2 = v1\<lparr>rng := r2\<rparr> \<and>
        rng_state w1 r1 = rng_state w2 r2)"

definition same_value ::
  "rng_ref \<Rightarrow> rng_ref \<Rightarrow> 'b \<times> 'a vocabulary \<times> 'g world \<Rightarrow> 'b \<times> 'a vocabulary \<times> 'g world
     \<Rightarrow> bool" where
  "same_value r1 r2 x y = (fst x = fst y \<and> same_run r1 r2 (snd x) (snd y))"


section \<open>The operations the specification names\<close>



section \<open>Where an exception is raised\<close>




section \<open>Concrete inputs\<close>

text \<open>
  A vocabulary of the two unit vectors of dimension 2, with integer entries, two outputs
  of one time step, (3, 1) and (1, 5), and the target (1, 0) for both.
\<close>

definition demo_vocab :: "int vocabulary" where
  "demo_vocab =
     \<lparr>dimensions = 2, rng = NpRandom, max_similarity = 1, keys = [''A'', ''B''],
      pointers = [''A'' \<mapsto> \<lparr>len1 = 2, at1 = (\<lambda>k. if k = 0 then 1 else 0)\<rparr>,
                  ''B'' \<mapsto> \<lparr>len1 = 2, at1 = (\<lambda>k. if k = 1 then 1 else 0)\<rparr>],
      vectors = \<lparr>rows2 = 2, cols2 = 2, at2 = (\<lambda>i k. if i = k then 1 else 0)\<rparr>\<rparr>"

definition demo_output :: "int arr3" where
  "demo_output =
     \<lparr>dim0 = 2, dim1 = 1, dim2 = 2,
      at3 = (\<lambda>i j k. if i = 0 then (if k = 0 then 3 else 1) else (if k = 0 then 1 else 5))\<rparr>"

definition demo_targets :: "int arr3" where
  "demo_targets = \<lparr>dim0 = 2, dim1 = 1, dim2 = 2, at3 = (\<lambda>i j k. if k = 0 then 1 else 0)\<rparr>"

text \<open>The same with no item in the batch, and a vocabulary with no vector.\<close>

definition empty_batch :: "int arr3" where
  "empty_batch = \<lparr>dim0 = 0, dim1 = 1, dim2 = 2, at3 = (\<lambda>i j k. 0)\<rparr>"


text \<open>
  A library over integer vectors whose generator state is a counter: a new pointer holds
  the next integers, \<open>randint\<close> returns the counter reduced, the convolution is the
  circular one and \<open>normalize\<close> changes nothing.
\<close>

definition demo_lib :: "(int, nat) library" where
  "demo_lib =
     \<lparr>seed_state = (\<lambda>seed. nat seed),
      randint_value = (\<lambda>g high. g),
      randint_next = (\<lambda>g high. Suc g),
      pointer_value = (\<lambda>g d ms vs k. int (g + k)),
      pointer_next = (\<lambda>g d ms vs. g + d),
      convolve = (\<lambda>n a b k. foldl (\<lambda>s j. s + a j * b ((k + n - j) mod n)) 0 [0..<n]),
      convolve_other = (\<lambda>a b. Inl ValueError),
      normalized = (\<lambda>n a. a),
      zeros_error = (\<lambda>dims. None),
      max_expr_depth = 3000,
      randint_max = 2 ^ 63\<rparr>"

text \<open>
  An interpreter state with no generator object yet; the operating system hands the
  unseeded generators the states 20, 30, 40, and so on.
\<close>

definition demo_world :: "nat world" where
  "demo_world =
     \<lparr>np_random = 7, rng_objs = (\<lambda>a. 0), n_objs = 0, os_entropy = (\<lambda>k. 20 + 10 * k),
      n_seeded = 0\<rparr>"


section \<open>Properties of \<open>accuracy\<close>\<close>

lemma bind_err_simps [simp]:
  "bind_err (Inl e) f = Inl e" "bind_err (Inr x) f = f x"
  by (simp_all add: bind_err_def)

lemma argmax_scan_spec:
  "bi < length pre \<Longrightarrow> pre ! bi = bv \<Longrightarrow> \<forall>j<length pre. pre ! j \<le> bv \<Longrightarrow>
   \<forall>j<bi. pre ! j < bv \<Longrightarrow>
   argmax_scan xs (length pre) bi bv < length (pre @ xs) \<and>
   (\<forall>j<length (pre @ xs). (pre @ xs) ! j \<le> (pre @ xs) ! argmax_scan xs (length pre) bi bv) \<and>
   (\<forall>j<argmax_scan xs (length pre) bi bv.
       (pre @ xs) ! j < (pre @ xs) ! argmax_scan xs (length pre) bi bv)"
proof (induction xs arbitrary: pre bi bv)
  case Nil
  then show ?case by simp
next
  case (Cons x xs)
  show ?case
  proof (cases "bv < x")
    case True
    have "argmax_scan xs (length (pre @ [x])) (length pre) x < length ((pre @ [x]) @ xs) \<and>
      (\<forall>j<length ((pre @ [x]) @ xs). ((pre @ [x]) @ xs) ! j
          \<le> ((pre @ [x]) @ xs) ! argmax_scan xs (length (pre @ [x])) (length pre) x) \<and>
      (\<forall>j<argmax_scan xs (length (pre @ [x])) (length pre) x.
          ((pre @ [x]) @ xs) ! j
          < ((pre @ [x]) @ xs) ! argmax_scan xs (length (pre @ [x])) (length pre) x)"
    proof (rule Cons.IH)
      show "length pre < length (pre @ [x])" by simp
      show "(pre @ [x]) ! length pre = x" by simp
      show "\<forall>j<length (pre @ [x]). (pre @ [x]) ! j \<le> x"
        using Cons.prems True by (auto simp: nth_append less_Suc_eq intro: less_imp_le order_trans)
      show "\<forall>j<length pre. (pre @ [x]) ! j < x"
        using Cons.prems True by (auto simp: nth_append intro: le_less_trans)
    qed
    with True show ?thesis by simp
  next
    case False
    have "argmax_scan xs (length (pre @ [x])) bi bv < length ((pre @ [x]) @ xs) \<and>
      (\<forall>j<length ((pre @ [x]) @ xs). ((pre @ [x]) @ xs) ! j
          \<le> ((pre @ [x]) @ xs) ! argmax_scan xs (length (pre @ [x])) bi bv) \<and>
      (\<forall>j<argmax_scan xs (length (pre @ [x])) bi bv.
          ((pre @ [x]) @ xs) ! j
          < ((pre @ [x]) @ xs) ! argmax_scan xs (length (pre @ [x])) bi bv)"
    proof (rule Cons.IH)
      show "bi < length (pre @ [x])" using Cons.prems by simp
      show "(pre @ [x]) ! bi = bv" using Cons.prems by (simp add: nth_append)
      show "\<forall>j<length (pre @ [x]). (pre @ [x]) ! j \<le> bv"
        using Cons.prems False by (auto simp: nth_append less_Suc_eq)
      show "\<forall>j<bi. (pre @ [x]) ! j < bv"
        using Cons.prems by (auto simp: nth_append)
    qed
    with False show ?thesis by simp
  qed
qed

lemma argmax_list_spec:
  assumes "xs \<noteq> []"
  shows "argmax_list xs < length xs"
    and "\<forall>j<length xs. xs ! j \<le> xs ! argmax_list xs"
    and "\<forall>j<argmax_list xs. xs ! j < xs ! argmax_list xs"
proof -
  obtain x ys where xs: "xs = x # ys" using assms by (cases xs) auto
  have "argmax_scan ys (length [x]) 0 x < length ([x] @ ys) \<and>
   (\<forall>j<length ([x] @ ys). ([x] @ ys) ! j \<le> ([x] @ ys) ! argmax_scan ys (length [x]) 0 x) \<and>
   (\<forall>j<argmax_scan ys (length [x]) 0 x.
       ([x] @ ys) ! j < ([x] @ ys) ! argmax_scan ys (length [x]) 0 x)"
    by (rule argmax_scan_spec) auto
  then show "argmax_list xs < length xs"
    and "\<forall>j<length xs. xs ! j \<le> xs ! argmax_list xs"
    and "\<forall>j<argmax_list xs. xs ! j < xs ! argmax_list xs"
    by (simp_all add: xs argmax_list_def)
qed

lemma length_filter_upt_card:
  "length (filter P [0..<n]) = card {i. i < n \<and> P i}"
proof -
  have "{i. i < n \<and> P ([0..<n] ! i)} = {i. i < n \<and> P i}" by auto
  then show ?thesis by (simp add: length_filter_conv_card)
qed

text \<open>The model run by the kernel on the concrete inputs: one of the two outputs is
  most similar to its target.\<close>

lemma accuracy_demo_run:
  "accuracy demo_output demo_vocab demo_targets (- 1) = Inr (Finite (1 / 2))"
  by code_simp

text \<open>
  Claim C3, as amended. For a batch of at least one item, a time step inside the output
  (counted from the end when negative), a vocabulary with at least one vector, of the
  output's dimension, and targets of shape (batch, at least 1, d), \<open>accuracy\<close> returns
  the arithmetic mean over the batch items of the indicator that the vocabulary vector
  most similar to the item's output at the time step (the first index \<open>idx i\<close> holding the
  greatest dot product) equals the item's target componentwise; the value lies in [0, 1].
\<close>

theorem accuracy_mean:
  assumes batch: "0 < dim0 (output :: ('a::{zero,plus,times,linorder}) arr3)"
    and step_lo: "- int (dim1 output) \<le> t_step"
    and step_hi: "t_step < int (dim1 output)"
    and voc: "0 < rows2 (vectors vocab)"
    and voc_d: "cols2 (vectors vocab) = dim2 output"
    and tgt0: "dim0 targets = dim0 output"
    and tgt1: "0 < dim1 targets"
    and tgt2: "dim2 targets = dim2 output"
  shows "\<exists>idx q.
      (\<forall>i<dim0 output.
          idx i < rows2 (vectors vocab) \<and>
          (\<forall>v<rows2 (vectors vocab).
              dot (dim2 output) (at2 (vectors vocab) v)
                  (at3 output i (nat (if t_step < 0 then int (dim1 output) + t_step else t_step)))
              \<le> dot (dim2 output) (at2 (vectors vocab) (idx i))
                  (at3 output i (nat (if t_step < 0 then int (dim1 output) + t_step else t_step)))) \<and>
          (\<forall>v<idx i.
              dot (dim2 output) (at2 (vectors vocab) v)
                  (at3 output i (nat (if t_step < 0 then int (dim1 output) + t_step else t_step)))
              < dot (dim2 output) (at2 (vectors vocab) (idx i))
                  (at3 output i (nat (if t_step < 0 then int (dim1 output) + t_step else t_step))))) \<and>
      accuracy output vocab targets t_step = Inr (Finite q) \<and>
      q = of_nat (card {i. i < dim0 output \<and>
                (\<forall>k<dim2 output. at2 (vectors vocab) (idx i) k = at3 targets i 0 k)})
          / of_nat (dim0 output) \<and>
      0 \<le> q \<and> q \<le> 1"
proof -
  define V where "V = rows2 (vectors vocab)"
  define d where "d = dim2 output"
  define b where "b = dim0 output"
  define j where "j = nat (if t_step < 0 then int (dim1 output) + t_step else t_step)"
  define sim where "sim = (\<lambda>v i. dot d (at2 (vectors vocab) v) (at3 output i j))"
  define col where "col = (\<lambda>i. map (\<lambda>v. sim v i) [0..<V])"
  define idx where "idx = (\<lambda>i. argmax_list (col i))"
  define hit where "hit = (\<lambda>i. list_all (\<lambda>k. at2 (vectors vocab) (idx i) k = at3 targets i 0 k) [0..<d])"
  define q :: rat where "q = of_nat (length (filter hit [0..<b])) / of_nat b"
  have col_ne: "col i \<noteq> []" for i using voc by (simp add: col_def V_def)
  have idx_lt: "idx i < V" for i
    using argmax_list_spec(1) [OF col_ne [of i]] by (simp add: idx_def col_def)
  have idx_max: "sim v i \<le> sim (idx i) i" if "v < V" for v i
    using argmax_list_spec(2) [OF col_ne [of i]] that idx_lt [of i]
    by (auto simp: idx_def col_def)
  have idx_first: "sim v i < sim (idx i) i" if "v < idx i" for v i
  proof -
    have "v < V" using that idx_lt [of i] by simp
    then show ?thesis
      using argmax_list_spec(3) [OF col_ne [of i]] that idx_lt [of i]
      by (auto simp: idx_def col_def)
  qed
  have ts: "take_step output t_step
      = Inr \<lparr>rows2 = b, cols2 = d, at2 = (\<lambda>i k. at3 output i j k)\<rparr>"
    using step_lo step_hi by (simp add: take_step_def Let_def b_def d_def j_def)
  have dt: "np_dot (vectors vocab)
        (transpose2 \<lparr>rows2 = b, cols2 = d, at2 = (\<lambda>i k. at3 output i j k)\<rparr>)
      = Inr \<lparr>rows2 = V, cols2 = b, at2 = (\<lambda>v i. sim v i)\<rparr>"
    using voc_d by (simp add: np_dot_def transpose2_def V_def d_def sim_def)
  have am: "np_argmax0 \<lparr>rows2 = V, cols2 = b, at2 = (\<lambda>v i. sim v i)\<rparr>
      = Inr \<lparr>len1 = b, at1 = idx\<rparr>"
    using voc by (simp add: np_argmax0_def V_def idx_def col_def)
  have tr: "take_rows (vectors vocab) \<lparr>len1 = b, at1 = idx\<rparr>
      = Inr \<lparr>rows2 = b, cols2 = d, at2 = (\<lambda>i k. at2 (vectors vocab) (idx i) k)\<rparr>"
    using idx_lt voc_d by (simp add: take_rows_def list_all_iff V_def d_def)
  have fs: "first_step targets = Inr \<lparr>rows2 = b, cols2 = d, at2 = (\<lambda>i k. at3 targets i 0 k)\<rparr>"
    using tgt0 tgt1 tgt2 by (simp add: first_step_def b_def d_def)
  have eq: "np_equal \<lparr>rows2 = b, cols2 = d, at2 = (\<lambda>i k. at2 (vectors vocab) (idx i) k)\<rparr>
        \<lparr>rows2 = b, cols2 = d, at2 = (\<lambda>i k. at3 targets i 0 k)\<rparr>
      = Inr \<lparr>rows2 = b, cols2 = d,
          at2 = (\<lambda>i k. at2 (vectors vocab) (idx (bidx b i)) (bidx d k)
                 = at3 targets (bidx b i) 0 (bidx d k))\<rparr>"
    by (simp add: np_equal_def broadcast_dim_def)
  have bidx_id: "bidx n i = i" if "i < n" for n i
    using that by (auto simp: bidx_def)
  have all1: "list_all (\<lambda>k. at2 (vectors vocab) (idx (bidx b i)) (bidx d k)
                 = at3 targets (bidx b i) 0 (bidx d k)) [0..<d] = hit i" if "i < b" for i
    using that by (simp add: hit_def list_all_iff bidx_id)
  have flt: "filter (\<lambda>i. list_all (\<lambda>k. at2 (vectors vocab) (idx (bidx b i)) (bidx d k)
                 = at3 targets (bidx b i) 0 (bidx d k)) [0..<d]) [0..<b] = filter hit [0..<b]"
    by (rule filter_cong) (simp_all add: all1)
  have acc: "accuracy output vocab targets t_step = Inr (Finite q)"
  proof -
    have "0 < b" using batch by (simp add: b_def)
    then show ?thesis
      by (simp add: accuracy_def ts dt am tr fs eq np_all1_def np_mean_def flt q_def)
  qed
  have card: "length (filter hit [0..<b])
      = card {i. i < b \<and> (\<forall>k<d. at2 (vectors vocab) (idx i) k = at3 targets i 0 k)}"
  proof -
    have "hit i = (\<forall>k<d. at2 (vectors vocab) (idx i) k = at3 targets i 0 k)" for i
      by (auto simp: hit_def list_all_iff)
    then show ?thesis by (simp add: length_filter_upt_card)
  qed
  have le: "length (filter hit [0..<b]) \<le> b"
    using length_filter_le [of hit "[0..<b]"] by simp
  have q1: "q \<le> 1" unfolding q_def using le batch by (simp add: divide_le_eq_1 b_def)
  have q0: "0 \<le> q" unfolding q_def by simp
  have best: "\<forall>i<b. idx i < V \<and>
      (\<forall>v<V. dot d (at2 (vectors vocab) v) (at3 output i j)
          \<le> dot d (at2 (vectors vocab) (idx i)) (at3 output i j)) \<and>
      (\<forall>v<idx i. dot d (at2 (vectors vocab) v) (at3 output i j)
          < dot d (at2 (vectors vocab) (idx i)) (at3 output i j))"
    using idx_lt idx_max idx_first unfolding sim_def by blast
  have qc: "q = of_nat (card {i. i < b \<and>
      (\<forall>k<d. at2 (vectors vocab) (idx i) k = at3 targets i 0 k)}) / of_nat b"
    by (simp add: q_def card)
  from best acc qc q0 q1 show ?thesis
    unfolding b_def d_def V_def j_def by blast
qed

theorem accuracy_mean_witness:
  "0 < dim0 demo_output \<and> 0 < rows2 (vectors demo_vocab) \<and>
   (\<exists>q. accuracy demo_output demo_vocab demo_targets (- 1) = Inr (Finite q) \<and> 0 \<le> q \<and> q \<le> 1)"
proof -
  have "\<exists>idx q.
      (\<forall>i<dim0 demo_output.
          idx i < rows2 (vectors demo_vocab) \<and>
          (\<forall>v<rows2 (vectors demo_vocab).
              dot (dim2 demo_output) (at2 (vectors demo_vocab) v)
                  (at3 demo_output i
                    (nat (if (- 1 :: int) < 0 then int (dim1 demo_output) + (- 1) else (- 1))))
              \<le> dot (dim2 demo_output) (at2 (vectors demo_vocab) (idx i))
                  (at3 demo_output i
                    (nat (if (- 1 :: int) < 0 then int (dim1 demo_output) + (- 1) else (- 1))))) \<and>
          (\<forall>v<idx i.
              dot (dim2 demo_output) (at2 (vectors demo_vocab) v)
                  (at3 demo_output i
                    (nat (if (- 1 :: int) < 0 then int (dim1 demo_output) + (- 1) else (- 1))))
              < dot (dim2 demo_output) (at2 (vectors demo_vocab) (idx i))
                  (at3 demo_output i
                    (nat (if (- 1 :: int) < 0 then int (dim1 demo_output) + (- 1) else (- 1)))))) \<and>
      accuracy demo_output demo_vocab demo_targets (- 1) = Inr (Finite q) \<and>
      q = of_nat (card {i. i < dim0 demo_output \<and>
                (\<forall>k<dim2 demo_output. at2 (vectors demo_vocab) (idx i) k = at3 demo_targets i 0 k)})
          / of_nat (dim0 demo_output) \<and>
      0 \<le> q \<and> q \<le> 1"
    by (rule accuracy_mean) (simp_all add: demo_output_def demo_vocab_def demo_targets_def)
  then have "\<exists>q. accuracy demo_output demo_vocab demo_targets (- 1) = Inr (Finite q)
      \<and> 0 \<le> q \<and> q \<le> 1"
    by blast
  then show ?thesis by (simp add: demo_output_def demo_vocab_def)
qed

text \<open>
  Claim C3 as stated quantifies over every batch. With no item in the batch the value is
  NaN: not a mean, and not in [0, 1].
\<close>

theorem accuracy_empty_batch_nan:
  "accuracy empty_batch demo_vocab empty_batch (- 1) = Inr NaN"
  by (simp add: accuracy_def empty_batch_def demo_vocab_def take_step_def np_dot_def
      transpose2_def np_argmax0_def take_rows_def first_step_def np_equal_def
      broadcast_dim_def np_all1_def np_mean_def)



section \<open>Names and texts\<close>

lemma digit_char_is_digit: "d < 10 \<Longrightarrow> is_digit (digit_char d)"
proof -
  assume "d < 10"
  then have "d < length ''0123456789''" by simp
  then have "''0123456789'' ! d \<in> set ''0123456789''" by (rule nth_mem)
  then show ?thesis by (simp only: is_digit_def digit_char_def)
qed

lemma digit_char_inj: "a < 10 \<Longrightarrow> b < 10 \<Longrightarrow> digit_char a = digit_char b \<Longrightarrow> a = b"
proof -
  assume a: "a < 10" and b: "b < 10" and eq: "digit_char a = digit_char b"
  have d: "distinct ''0123456789''" by simp
  have "a < length ''0123456789''" "b < length ''0123456789''" using a b by simp_all
  with d eq show "a = b" unfolding digit_char_def by (simp only: nth_eq_iff_index_eq)
qed

lemma str_nat_digits: "c \<in> set (str_nat n) \<Longrightarrow> is_digit c"
proof (induction n rule: str_nat.induct)
  case (1 n)
  show ?case
  proof (cases "n < 10")
    case True
    with "1.prems" show ?thesis by (simp add: str_nat.simps [of n] digit_char_is_digit)
  next
    case False
    have "n mod 10 < 10" by simp
    then have "is_digit (digit_char (n mod 10))" by (rule digit_char_is_digit)
    with False "1.prems" "1.IH" show ?thesis by (auto simp: str_nat.simps [of n])
  qed
qed

lemma str_nat_nonempty: "str_nat n \<noteq> []" "[] \<noteq> str_nat n"
  by (simp_all add: str_nat.simps [of n])

lemma str_nat_inj: "str_nat n = str_nat m \<Longrightarrow> n = m"
proof (induction n arbitrary: m rule: str_nat.induct)
  case (1 n)
  show ?case
  proof (cases "n < 10")
    case n: True
    show ?thesis
    proof (cases "m < 10")
      case True
      with n "1.prems" show ?thesis
        by (simp add: str_nat.simps [of n] str_nat.simps [of m] digit_char_inj)
    next
      case False
      with n "1.prems" show ?thesis
        by (simp add: str_nat.simps [of n] str_nat.simps [of m] str_nat_nonempty)
    qed
  next
    case n: False
    show ?thesis
    proof (cases "m < 10")
      case True
      with n "1.prems" show ?thesis
        by (simp add: str_nat.simps [of n] str_nat.simps [of m] str_nat_nonempty)
    next
      case False
      with n "1.prems" have eq: "str_nat (n div 10) = str_nat (m div 10)"
        and dg: "digit_char (n mod 10) = digit_char (m mod 10)"
        by (simp_all add: str_nat.simps [of n] str_nat.simps [of m])
      have "n div 10 = m div 10" using n eq by (rule "1.IH")
      moreover have "n mod 10 = m mod 10" using dg by (simp add: digit_char_inj)
      ultimately show ?thesis by (metis div_mult_mod_eq)
    qed
  qed
qed

lemma plain_append [simp]: "plain (a @ b) = (plain a \<and> plain b)"
  by (simp add: plain_def)

lemma plain_Nil [simp]: "plain []"
  by (simp add: plain_def)

lemma plain_Cons [simp]:
  "plain (c # s) = ((is_upper c \<or> is_digit c \<or> c = CHR ''_'') \<and> plain s)"
  by (simp add: plain_def)

lemma plain_str_nat: "plain (str_nat n)"
  by (simp add: plain_def list_all_iff str_nat_digits)

lemma plain_role_name: "plain (role_name n i)"
  by (simp add: role_name_def plain_str_nat is_upper_def)

lemma plain_filler_name: "plain (filler_name n i)"
  by (simp add: filler_name_def plain_str_nat is_upper_def)

lemma plain_chars:
  assumes "plain s" and "c \<in> set s"
  shows "c \<noteq> CHR ''+''" and "c \<noteq> CHR ''*''" and "\<not> is_blank c"
proof -
  have "is_upper c \<or> is_digit c \<or> c = CHR ''_''"
    using assms by (simp add: plain_def list_all_iff)
  then show "c \<noteq> CHR ''+''" and "c \<noteq> CHR ''*''" and "\<not> is_blank c"
    by (auto simp: is_upper_def is_digit_def is_blank_def)
qed

lemma split_on_absent: "c \<notin> set x \<Longrightarrow> split_on c x = [x]"
  by (induction x) auto

lemma split_on_first: "c \<notin> set x \<Longrightarrow> split_on c (x @ c # rest) = x # split_on c rest"
  by (induction x) auto

lemma split_on_join:
  "xs \<noteq> [] \<Longrightarrow> \<forall>x\<in>set xs. c \<notin> set x \<Longrightarrow> split_on c (join [c] xs) = xs"
proof (induction "[c]" xs rule: join.induct)
  case 1
  then show ?case by simp
next
  case (2 x)
  then show ?case by (simp add: split_on_absent)
next
  case (3 x y ys)
  have "split_on c (join [c] (x # y # ys)) = split_on c (x @ c # join [c] (y # ys))"
    by simp
  also have "\<dots> = x # split_on c (join [c] (y # ys))"
    using "3.prems" by (simp add: split_on_first)
  also have "\<dots> = x # y # ys" using 3 by simp
  finally show ?case .
qed

lemma dropWhile_blank_plain: "plain x \<Longrightarrow> dropWhile is_blank x = x"
  using plain_chars(3) [of x "hd x"] by (cases x) (simp_all del: plain_Cons)

lemma dropWhile_blank_rev_plain: "plain x \<Longrightarrow> dropWhile is_blank (rev x) = rev x"
proof -
  assume "plain x"
  then have "plain (rev x)" by (simp add: plain_def)
  then show ?thesis by (rule dropWhile_blank_plain)
qed

lemma strip_plain_right: "plain x \<Longrightarrow> x \<noteq> [] \<Longrightarrow> strip (x @ [CHR '' '']) = x"
proof -
  assume p: "plain x" and ne: "x \<noteq> []"
  have h: "\<not> is_blank (hd x)" using p ne plain_chars(3) [of x "hd x"] by simp
  have b: "is_blank CHR '' ''" by (simp add: is_blank_def)
  have 1: "dropWhile is_blank (x @ [CHR '' '']) = x @ [CHR '' '']"
    using ne h by (cases x) simp_all
  have "strip (x @ [CHR '' '']) = rev (dropWhile is_blank (rev (x @ [CHR '' ''])))"
    unfolding strip_def 1 ..
  also have "\<dots> = rev (dropWhile is_blank (rev x))" using b by simp
  also have "\<dots> = x" using p by (simp only: dropWhile_blank_rev_plain rev_rev_ident)
  finally show ?thesis .
qed

lemma strip_plain_left: "plain x \<Longrightarrow> strip (CHR '' '' # x) = x"
proof -
  assume p: "plain x"
  have b: "is_blank CHR '' ''" by (simp add: is_blank_def)
  have "dropWhile is_blank (CHR '' '' # x) = dropWhile is_blank x" using b by simp
  also have "\<dots> = x" using p by (rule dropWhile_blank_plain)
  finally have 1: "dropWhile is_blank (CHR '' '' # x) = x" .
  have "strip (CHR '' '' # x) = rev (dropWhile is_blank (rev x))"
    unfolding strip_def 1 ..
  also have "\<dots> = x" using p by (simp only: dropWhile_blank_rev_plain rev_rev_ident)
  finally show ?thesis .
qed

lemma split_product:
  assumes "plain x" "x \<noteq> []" "plain y"
  shows "map strip (split_on CHR ''*'' (x @ CHR '' '' # CHR ''*'' # CHR '' '' # y)) = [x, y]"
proof -
  have nx: "CHR ''*'' \<notin> set (x @ [CHR '' ''])" using plain_chars(2) [OF assms(1)] by auto
  have ny: "CHR ''*'' \<notin> set (CHR '' '' # y)" using plain_chars(2) [OF assms(3)] by auto
  have "x @ CHR '' '' # CHR ''*'' # CHR '' '' # y
      = (x @ [CHR '' '']) @ CHR ''*'' # (CHR '' '' # y)" by simp
  then have sp: "split_on CHR ''*'' (x @ CHR '' '' # CHR ''*'' # CHR '' '' # y)
      = [x @ [CHR '' ''], CHR '' '' # y]"
    using split_on_first [OF nx, of "CHR '' '' # y"] split_on_absent [OF ny] by simp
  have l: "strip (CHR '' '' # y) = y" using assms(3) by (rule strip_plain_left)
  have r: "strip (x @ [CHR '' '']) = x" using assms(1,2) by (rule strip_plain_right)
  show ?thesis by (simp only: sp list.map l r)
qed

lemma plain_upper_identifier:
  "plain (c # s) \<Longrightarrow> is_upper c \<Longrightarrow> is_identifier (c # s)"
  by (auto simp: plain_def is_identifier_def list_all_iff simp del: plain_Cons)

lemma role_name_Cons: "role_name n i = CHR ''R'' # ''OLE_'' @ str_nat n @ ''_'' @ str_nat i"
  by (simp add: role_name_def)

lemma filler_name_Cons: "filler_name n i = CHR ''F'' # ''ILLER_'' @ str_nat n @ ''_'' @ str_nat i"
  by (simp add: filler_name_def)

lemma trace_name_Cons: "trace_name n = CHR ''T'' # ''RACE_'' @ str_nat n"
  by (simp add: trace_name_def)

lemma is_identifier_role: "is_identifier (role_name n i)"
  using plain_role_name [of n i] unfolding role_name_Cons
  by (rule plain_upper_identifier) (simp add: is_upper_def)

lemma is_identifier_filler: "is_identifier (filler_name n i)"
  using plain_filler_name [of n i] unfolding filler_name_Cons
  by (rule plain_upper_identifier) (simp add: is_upper_def)

lemma trace_text_map:
  "trace_text pairs_per_item n
     = join ''+'' (map (\<lambda>i. role_name n i @ '' * '' @ filler_name n i) [0..<nat pairs_per_item])"
  by (simp add: trace_text_def Let_def zip_map_map zip_same_conv_map o_def)

lemma parse_trace_text:
  assumes "1 \<le> pairs_per_item"
  shows "parse_text (trace_text pairs_per_item n)
     = Inr (map (\<lambda>i. [role_name n i, filler_name n i]) [0..<nat pairs_per_item])"
proof -
  define products where
    "products = map (\<lambda>i. role_name n i @ '' * '' @ filler_name n i) [0..<nat pairs_per_item]"
  have ne: "products \<noteq> []" using assms by (simp add: products_def)
  have np: "\<forall>x\<in>set products. CHR ''+'' \<notin> set x"
  proof
    fix x assume "x \<in> set products"
    then obtain i where x: "x = role_name n i @ '' * '' @ filler_name n i"
      by (auto simp: products_def)
    show "CHR ''+'' \<notin> set x"
      using plain_chars(1) [OF plain_role_name [of n i]]
        plain_chars(1) [OF plain_filler_name [of n i]] by (auto simp: x)
  qed
  have sp: "split_on CHR ''+'' (trace_text pairs_per_item n) = products"
    using split_on_join [OF ne np] by (simp add: trace_text_map products_def)
  have rn: "role_name n i \<noteq> []" for i by (simp add: role_name_def)
  have terms: "map (\<lambda>t. map strip (split_on CHR ''*'' t)) products
      = map (\<lambda>i. [role_name n i, filler_name n i]) [0..<nat pairs_per_item]"
    by (simp add: products_def o_def split_product plain_role_name plain_filler_name rn)
  show ?thesis
    by (simp add: parse_text_def sp terms list_all_iff is_identifier_role is_identifier_filler)
qed

lemma parse_trace_text_empty:
  "pairs_per_item \<le> 0 \<Longrightarrow> parse_text (trace_text pairs_per_item n) = Inl SyntaxError"
  by (simp add: trace_text_map parse_text_def strip_def is_identifier_def)

section \<open>The vocabulary grows and keeps its pointers\<close>

lemma starts_upper_names:
  "starts_upper (role_name n i)" "starts_upper (filler_name n i)" "starts_upper (trace_name n)"
  by (simp_all add: starts_upper_def role_name_def filler_name_def trace_name_def is_upper_def)

lemma vocab_ok_len: "vocab_ok D r v \<Longrightarrow> pointers v key = Some p \<Longrightarrow> len1 p = D"
  by (simp add: vocab_ok_def)

lemma vocab_add_ok:
  assumes "vocab_ok D r v" "starts_upper key" "pointers v key = None" "len1 p = D"
  shows "\<exists>v'. vocab_add v key p = Inr v' \<and> vocab_ok D r v' \<and>
      pointers v' = (pointers v)(key \<mapsto> p)"
proof -
  obtain c cs where key: "key = c # cs" and up: "is_upper c"
    using assms(2) by (cases key) (auto simp: starts_upper_def)
  have st: "vstack (vectors v) p
      = Inr \<lparr>rows2 = Suc (rows2 (vectors v)), cols2 = cols2 (vectors v),
             at2 = (\<lambda>i k. if i = rows2 (vectors v) then at1 p k else at2 (vectors v) i k)\<rparr>"
    using assms(1,4) by (simp add: vstack_def vocab_ok_def)
  have "vocab_add v key p
      = Inr (v\<lparr>keys := keys v @ [key], pointers := (pointers v)(key \<mapsto> p),
          vectors := \<lparr>rows2 = Suc (rows2 (vectors v)), cols2 = cols2 (vectors v),
             at2 = (\<lambda>i k. if i = rows2 (vectors v) then at1 p k else at2 (vectors v) i k)\<rparr>\<rparr>)"
    using up assms(3) by (simp add: vocab_add_def key st)
  moreover have "vocab_ok D r (v\<lparr>keys := keys v @ [key], pointers := (pointers v)(key \<mapsto> p),
          vectors := \<lparr>rows2 = Suc (rows2 (vectors v)), cols2 = cols2 (vectors v),
             at2 = (\<lambda>i k. if i = rows2 (vectors v) then at1 p k else at2 (vectors v) i k)\<rparr>\<rparr>)"
    using assms(1,4) by (simp add: vocab_ok_def)
  ultimately show ?thesis by simp
qed

lemma vocab_getitem_known:
  "pointers v key = Some p \<Longrightarrow> vocab_getitem lib w v key = Inr (p, v, w)"
  by (simp add: vocab_getitem_def)

lemma vocab_getitem_ok:
  assumes "vocab_ok D r v" "starts_upper key"
  shows "\<exists>p v' w'. vocab_getitem lib w v key = Inr (p, v', w') \<and> vocab_ok D r v' \<and>
      pointers v' key = Some p \<and> pointers v \<subseteq>\<^sub>m pointers v' \<and>
      dom (pointers v') = insert key (dom (pointers v))"
proof (cases "pointers v key")
  case (Some p)
  then have "vocab_getitem lib w v key = Inr (p, v, w)" by (rule vocab_getitem_known)
  moreover have "dom (pointers v) = insert key (dom (pointers v))" using Some by auto
  ultimately show ?thesis using assms(1) Some by auto
next
  case None
  define p where "p = \<lparr>len1 = dimensions v,
      at1 = pointer_value lib (rng_state w (rng v)) (dimensions v) (max_similarity v) (vectors v)\<rparr>"
  have "len1 p = D" using assms(1) by (simp add: p_def vocab_ok_def)
  from vocab_add_ok [OF assms(1) assms(2) None this]
  obtain v' where v': "vocab_add v key p = Inr v'" "vocab_ok D r v'"
    "pointers v' = (pointers v)(key \<mapsto> p)" by blast
  have "vocab_getitem lib w v key
      = Inr (p, v', rng_put w (rng v) (pointer_next lib (rng_state w (rng v)) (dimensions v)
          (max_similarity v) (vectors v)))"
    using None v'(1) by (simp add: vocab_getitem_def Let_def p_def [symmetric])
  moreover have "pointers v \<subseteq>\<^sub>m pointers v'"
    using None by (auto simp: v'(3) map_le_def)
  ultimately show ?thesis using v'(2) by (auto simp: v'(3))
qed

lemma eval_pair_ok:
  assumes "vocab_ok D r v" "starts_upper x" "starts_upper y"
  shows "\<exists>px py v' w'. eval_term lib w v [x, y] = Inr (bind_vec lib px py, v', w') \<and>
      vocab_ok D r v' \<and> pointers v' x = Some px \<and> pointers v' y = Some py \<and>
      pointers v \<subseteq>\<^sub>m pointers v' \<and> dom (pointers v') = {x, y} \<union> dom (pointers v)"
proof -
  from vocab_getitem_ok [OF assms(1,2), of lib w]
  obtain px v1 w1 where 1: "vocab_getitem lib w v x = Inr (px, v1, w1)" "vocab_ok D r v1"
    "pointers v1 x = Some px" "pointers v \<subseteq>\<^sub>m pointers v1"
    "dom (pointers v1) = insert x (dom (pointers v))" by blast
  from vocab_getitem_ok [OF 1(2) assms(3), of lib w1]
  obtain py v2 w2 where 2: "vocab_getitem lib w1 v1 y = Inr (py, v2, w2)" "vocab_ok D r v2"
    "pointers v2 y = Some py" "pointers v1 \<subseteq>\<^sub>m pointers v2"
    "dom (pointers v2) = insert y (dom (pointers v1))" by blast
  have lx: "len1 px = D" using 1(2,3) by (rule vocab_ok_len)
  have ly: "len1 py = D" using 2(2,3) by (rule vocab_ok_len)
  have x2: "pointers v2 x = Some px"
    using 1(3) 2(4) by (auto simp: map_le_def dom_def)
  have "eval_term lib w v [x, y] = Inr (bind_vec lib px py, v2, w2)"
    by (simp add: eval_term_def 1(1) 2(1) sp_mul_def lx ly)
  moreover have "pointers v \<subseteq>\<^sub>m pointers v2" using 1(4) 2(4) by (rule map_le_trans)
  moreover have "dom (pointers v2) = {x, y} \<union> dom (pointers v)" using 1(5) 2(5) by auto
  ultimately show ?thesis using 2(2,3) x2 by blast
qed

lemma map_le_the: "m \<subseteq>\<^sub>m m' \<Longrightarrow> k \<in> dom m \<Longrightarrow> the (m' k) = the (m k)"
  by (auto simp: map_le_def)

lemma eval_pairs_ok:
  assumes "vocab_ok D r v" "len1 acc = D"
    and "\<forall>i\<in>set is. starts_upper (f i) \<and> starts_upper (g i)"
  shows "\<exists>v' w'.
      eval_sum lib w v acc (map (\<lambda>i. [f i, g i]) is)
        = Inr (foldl add_vec acc
                (map (\<lambda>i. bind_vec lib (the (pointers v' (f i))) (the (pointers v' (g i)))) is),
               v', w') \<and>
      vocab_ok D r v' \<and> pointers v \<subseteq>\<^sub>m pointers v' \<and>
      dom (pointers v') = (\<Union>i\<in>set is. {f i, g i}) \<union> dom (pointers v)"
  using assms
proof (induction "is" arbitrary: w v acc)
  case Nil
  then show ?case by simp
next
  case (Cons i "is")
  have up: "starts_upper (f i)" "starts_upper (g i)" using Cons.prems(3) by simp_all
  from eval_pair_ok [OF Cons.prems(1) up, of lib w]
  obtain px py v1 w1 where 1: "eval_term lib w v [f i, g i] = Inr (bind_vec lib px py, v1, w1)"
    "vocab_ok D r v1" "pointers v1 (f i) = Some px" "pointers v1 (g i) = Some py"
    "pointers v \<subseteq>\<^sub>m pointers v1" "dom (pointers v1) = {f i, g i} \<union> dom (pointers v)"
    by blast
  have lx: "len1 px = D" using 1(2,3) by (rule vocab_ok_len)
  define acc' where "acc' = add_vec acc (bind_vec lib px py)"
  have la: "len1 acc' = D" using Cons.prems(2) by (simp add: acc'_def add_vec_def)
  have add: "sp_add acc (bind_vec lib px py) = Inr acc'"
    using Cons.prems(2) lx by (simp add: sp_add_def bind_vec_def acc'_def)
  have rest: "\<forall>i\<in>set is. starts_upper (f i) \<and> starts_upper (g i)" using Cons.prems(3) by simp
  from Cons.IH [OF 1(2) la rest, of w1]
  obtain v' w' where 2: "eval_sum lib w1 v1 acc' (map (\<lambda>i. [f i, g i]) is)
        = Inr (foldl add_vec acc'
                (map (\<lambda>i. bind_vec lib (the (pointers v' (f i))) (the (pointers v' (g i)))) is),
               v', w')"
    "vocab_ok D r v'" "pointers v1 \<subseteq>\<^sub>m pointers v'"
    "dom (pointers v') = (\<Union>i\<in>set is. {f i, g i}) \<union> dom (pointers v1)" by blast
  have px: "the (pointers v' (f i)) = px"
    using map_le_the [OF 2(3), of "f i"] 1(3) by (simp add: dom_def)
  have py: "the (pointers v' (g i)) = py"
    using map_le_the [OF 2(3), of "g i"] 1(4) by (simp add: dom_def)
  have "eval_sum lib w v acc (map (\<lambda>i. [f i, g i]) (i # is))
      = Inr (foldl add_vec acc
              (map (\<lambda>i. bind_vec lib (the (pointers v' (f i))) (the (pointers v' (g i))))
                (i # is)), v', w')"
    by (simp add: 1(1) add 2(1) px py) (simp add: acc'_def)
  moreover have "pointers v \<subseteq>\<^sub>m pointers v'" using 1(5) 2(3) by (rule map_le_trans)
  moreover have "dom (pointers v') = (\<Union>i\<in>set (i # is). {f i, g i}) \<union> dom (pointers v)"
    using 1(6) 2(4) by auto
  ultimately show ?case using 2(2) by blast
qed

lemma len1_foldl_add_vec: "len1 (foldl add_vec a xs) = len1 a"
  by (induction xs arbitrary: a) (simp_all add: add_vec_def)

lemma superpose_upt:
  "0 < P \<Longrightarrow> superpose (map h [0..<P]) = foldl add_vec (h 0) (map h [Suc 0..<P])"
  by (simp add: superpose_def upt_conv_Cons)

lemma len1_superpose_upt: "0 < P \<Longrightarrow> len1 (superpose (map h [0..<P])) = len1 (h 0)"
  by (simp add: superpose_upt len1_foldl_add_vec)

lemma expr_depth_pairs_from:
  "2 \<le> d \<Longrightarrow> foldl (\<lambda>d u. Suc (max d (length u))) d (map (\<lambda>i. [f i, g i]) xs) = d + length xs"
  by (induction xs arbitrary: d) (simp_all add: max_def)

lemma expr_depth_pairs: "0 < P \<Longrightarrow> expr_depth (map (\<lambda>i. [f i, g i]) [0..<P]) = Suc P"
  by (simp add: expr_depth_def upt_conv_Cons expr_depth_pairs_from)

lemma vocab_parse_trace:
  assumes ok: "vocab_ok D r v" and P: "1 \<le> pairs_per_item"
    and depth: "nat pairs_per_item < max_expr_depth lib"
  shows "\<exists>v' w'.
      vocab_parse lib w v (trace_text pairs_per_item n)
        = Inr (superpose (map (\<lambda>i. bind_vec lib (the (pointers v' (role_name n i)))
                                      (the (pointers v' (filler_name n i))))
                  [0..<nat pairs_per_item]), v', w') \<and>
      vocab_ok D r v' \<and> pointers v \<subseteq>\<^sub>m pointers v' \<and>
      dom (pointers v')
        = (\<Union>i\<in>{..<nat pairs_per_item}. {role_name n i, filler_name n i}) \<union> dom (pointers v)"
proof -
  have pos: "0 < nat pairs_per_item" using P by simp
  have upt: "[0..<nat pairs_per_item] = 0 # [Suc 0..<nat pairs_per_item]"
    using pos by (simp add: upt_conv_Cons)
  have terms: "parse_text (trace_text pairs_per_item n)
      = Inr ([role_name n 0, filler_name n 0]
          # map (\<lambda>i. [role_name n i, filler_name n i]) [Suc 0..<nat pairs_per_item])"
    using parse_trace_text [OF P, of n] by (simp add: upt)
  from eval_pair_ok [OF ok starts_upper_names(1) starts_upper_names(2), of lib w n 0 n 0]
  obtain px py v1 w1 where 1:
    "eval_term lib w v [role_name n 0, filler_name n 0] = Inr (bind_vec lib px py, v1, w1)"
    "vocab_ok D r v1" "pointers v1 (role_name n 0) = Some px"
    "pointers v1 (filler_name n 0) = Some py" "pointers v \<subseteq>\<^sub>m pointers v1"
    "dom (pointers v1) = {role_name n 0, filler_name n 0} \<union> dom (pointers v)" by blast
  have la: "len1 (bind_vec lib px py) = D"
    using vocab_ok_len [OF 1(2,3)] by (simp add: bind_vec_def)
  have up: "\<forall>i\<in>set [Suc 0..<nat pairs_per_item].
      starts_upper (role_name n i) \<and> starts_upper (filler_name n i)"
    by (simp add: starts_upper_names)
  from eval_pairs_ok [OF 1(2) la up, of lib w1]
  obtain v' w' where 2:
    "eval_sum lib w1 v1 (bind_vec lib px py)
        (map (\<lambda>i. [role_name n i, filler_name n i]) [Suc 0..<nat pairs_per_item])
      = Inr (foldl add_vec (bind_vec lib px py)
              (map (\<lambda>i. bind_vec lib (the (pointers v' (role_name n i)))
                        (the (pointers v' (filler_name n i))))
                [Suc 0..<nat pairs_per_item]), v', w')"
    "vocab_ok D r v'" "pointers v1 \<subseteq>\<^sub>m pointers v'"
    "dom (pointers v')
      = (\<Union>i\<in>set [Suc 0..<nat pairs_per_item]. {role_name n i, filler_name n i})
          \<union> dom (pointers v1)" by blast
  have px: "the (pointers v' (role_name n 0)) = px"
    using map_le_the [OF 2(3), of "role_name n 0"] 1(3) by (simp add: dom_def)
  have py: "the (pointers v' (filler_name n 0)) = py"
    using map_le_the [OF 2(3), of "filler_name n 0"] 1(4) by (simp add: dom_def)
  have res: "vocab_parse lib w v (trace_text pairs_per_item n)
        = Inr (superpose (map (\<lambda>i. bind_vec lib (the (pointers v' (role_name n i)))
                                      (the (pointers v' (filler_name n i))))
                  [0..<nat pairs_per_item]), v', w')"
  proof -
    have "expr_depth ([role_name n 0, filler_name n 0]
          # map (\<lambda>i. [role_name n i, filler_name n i]) [Suc 0..<nat pairs_per_item])
        = Suc (nat pairs_per_item)"
      using expr_depth_pairs [OF pos, of "role_name n" "filler_name n"] by (simp add: upt)
    then have "\<not> max_expr_depth lib
        < expr_depth ([role_name n 0, filler_name n 0]
          # map (\<lambda>i. [role_name n i, filler_name n i]) [Suc 0..<nat pairs_per_item])"
      using depth by simp
    then show ?thesis
      by (simp add: vocab_parse_def terms 1(1) 2(1) superpose_upt [OF pos] px py)
  qed
  have le: "pointers v \<subseteq>\<^sub>m pointers v'" using 1(5) 2(3) by (rule map_le_trans)
  have "{..<nat pairs_per_item} = insert 0 (set [Suc 0..<nat pairs_per_item])"
    using pos by auto
  then have dm: "dom (pointers v')
      = (\<Union>i\<in>{..<nat pairs_per_item}. {role_name n i, filler_name n i}) \<union> dom (pointers v)"
    using 1(6) 2(4) by auto
  from res 2(2) le dm show ?thesis by blast
qed

lemma trace_name_inj: "trace_name n = trace_name m \<Longrightarrow> n = m"
  by (simp add: trace_name_def str_nat_inj)

lemma trace_name_not_pair: "trace_name n \<noteq> role_name m i" "trace_name n \<noteq> filler_name m i"
  "role_name m i \<noteq> trace_name n" "filler_name m i \<noteq> trace_name n"
  by (simp_all add: trace_name_Cons role_name_Cons filler_name_Cons)

lemma trace_name_fresh: "trace_name n \<notin> keyset n"
  using trace_name_inj [of n] by (auto simp: keyset_def trace_name_not_pair)

lemma keyset_mono: "keyset n \<subseteq> keyset (Suc n)"
  by (auto simp: keyset_def)

lemma keyset_pairs: "role_name m i \<in> keyset n" "filler_name m i \<in> keyset n"
  by (auto simp: keyset_def)

lemma keyset_trace: "trace_name n \<in> keyset (Suc n)"
  by (auto simp: keyset_def)

lemma item_ok_mono:
  assumes ok: "item_ok lib P D v tr cu ta m" and le: "pointers v \<subseteq>\<^sub>m pointers v'"
    and tr: "\<forall>k. at3 tr' m 0 k = at3 tr m 0 k"
    and cu: "\<forall>k. at3 cu' m 0 k = at3 cu m 0 k"
    and ta: "\<forall>k. at3 ta' m 0 k = at3 ta m 0 k"
  shows "item_ok lib P D v' tr' cu' ta' m"
proof -
  have dm: "\<forall>j<P. role_name m j \<in> dom (pointers v) \<and> filler_name m j \<in> dom (pointers v)"
    using ok by (simp add: item_ok_def)
  have r: "the (pointers v' (role_name m j)) = the (pointers v (role_name m j))" if "j < P" for j
    using map_le_the [OF le] dm that by simp
  have f: "the (pointers v' (filler_name m j)) = the (pointers v (filler_name m j))"
    if "j < P" for j
    using map_le_the [OF le] dm that by simp
  have mp: "map (\<lambda>j. bind_vec lib (the (pointers v' (role_name m j)))
                    (the (pointers v' (filler_name m j)))) [0..<P]
      = map (\<lambda>j. bind_vec lib (the (pointers v (role_name m j)))
                    (the (pointers v (filler_name m j)))) [0..<P]"
    by (rule map_cong) (simp_all add: r f)
  have t: "pointers v (trace_name m)
        = Some (normalize lib (superpose (map (\<lambda>j. bind_vec lib (the (pointers v (role_name m j)))
                                                      (the (pointers v (filler_name m j))))
                  [0..<P])))"
    using ok by (simp add: item_ok_def)
  then have t': "pointers v' (trace_name m) = pointers v (trace_name m)"
    using le by (auto simp: map_le_def dom_def)
  have dm': "\<forall>j<P. role_name m j \<in> dom (pointers v') \<and> filler_name m j \<in> dom (pointers v')"
    using dm map_le_implies_dom_le [OF le] by blast
  have c: "\<exists>c<P. \<forall>k<D. at3 cu m 0 k = at1 (the (pointers v (role_name m c))) k \<and>
                     at3 ta m 0 k = at1 (the (pointers v (filler_name m c))) k"
    using ok by (simp add: item_ok_def)
  then have c': "\<exists>c<P. \<forall>k<D. at3 cu' m 0 k = at1 (the (pointers v' (role_name m c))) k \<and>
                     at3 ta' m 0 k = at1 (the (pointers v' (filler_name m c))) k"
    using cu ta r f by auto
  have trow: "\<forall>k<D. at3 tr m 0 k = at1 (the (pointers v (trace_name m))) k"
    using ok by (simp add: item_ok_def)
  show ?thesis
    unfolding item_ok_def mp t'
    using dm' t c' trow tr by simp
qed

section \<open>The loop of \<open>get_data\<close>\<close>

lemma set_row_ok:
  assumes "shaped a N (Suc 0) D" "n < N" "len1 p = D"
  shows "\<exists>a'. set_row a n 0 p = Inr a' \<and> shaped a' N (Suc 0) D \<and>
      (\<forall>k. at3 a' n 0 k = at1 p k) \<and> (\<forall>i j k. i \<noteq> n \<longrightarrow> at3 a' i j k = at3 a i j k)"
  using assms by (simp add: set_row_def shaped_def)

lemma randint_ok:
  assumes "1 \<le> pairs_per_item" "pairs_per_item \<le> randint_max lib"
  shows "\<exists>c w'. randint lib w r pairs_per_item = Inr (c, w') \<and> c < nat pairs_per_item"
  using assms by (simp add: randint_def)

lemma get_data_item_ok:
  assumes inv: "loop_inv lib (nat pairs_per_item) D r N n st"
    and n: "n < N" and pairs: "pairs_ok lib pairs_per_item"
  shows "\<exists>st'. get_data_item lib pairs_per_item r n st = Inr st' \<and>
      loop_inv lib (nat pairs_per_item) D r N (Suc n) st'"
proof -
  define v0 where "v0 = st_vocab st"
  have ok0: "vocab_ok D r v0" and dom0: "dom (pointers v0) \<subseteq> keyset n"
    and sh: "shaped (st_traces st) N (Suc 0) D" "shaped (st_cues st) N (Suc 0) D"
      "shaped (st_targets st) N (Suc 0) D"
    and items: "\<forall>m<n. item_ok lib (nat pairs_per_item) D v0 (st_traces st) (st_cues st)
        (st_targets st) m"
    using inv by (simp_all add: loop_inv_def v0_def)
  have P: "1 \<le> pairs_per_item" and depth: "nat pairs_per_item < max_expr_depth lib"
    and bound: "pairs_per_item \<le> randint_max lib"
    using pairs by (simp_all add: pairs_ok_def)
  have pos: "0 < nat pairs_per_item" using P by simp
  define bound where "bound = (\<lambda>v :: 'a vocabulary.
      map (\<lambda>i. bind_vec lib (the (pointers v (role_name n i))) (the (pointers v (filler_name n i))))
        [0..<nat pairs_per_item])"
  from vocab_parse_trace [OF ok0 P depth, of "st_world st" n]
  obtain v1 w1 where 1:
    "vocab_parse lib (st_world st) v0 (trace_text pairs_per_item n)
      = Inr (superpose (bound v1), v1, w1)"
    "vocab_ok D r v1" "pointers v0 \<subseteq>\<^sub>m pointers v1"
    "dom (pointers v1)
      = (\<Union>i\<in>{..<nat pairs_per_item}. {role_name n i, filler_name n i}) \<union> dom (pointers v0)"
    unfolding bound_def by blast
  have in1: "role_name n j \<in> dom (pointers v1) \<and> filler_name n j \<in> dom (pointers v1)"
    if "j < nat pairs_per_item" for j
    using that by (auto simp: 1(4))
  have "role_name n 0 \<in> dom (pointers v1)" using in1 [OF pos] by simp
  then obtain p0 where p0: "pointers v1 (role_name n 0) = Some p0" by auto
  have "len1 (superpose (bound v1)) = len1 (the (pointers v1 (role_name n 0)))"
    unfolding bound_def by (simp add: len1_superpose_upt [OF pos] bind_vec_def)
  then have ltp: "len1 (superpose (bound v1)) = D"
    using vocab_ok_len [OF 1(2) p0] by (simp add: p0)
  define tp where "tp = normalize lib (superpose (bound v1))"
  have ltp': "len1 tp = D" using ltp by (simp add: tp_def normalize_def)
  have fresh: "pointers v1 (trace_name n) = None"
  proof -
    have "trace_name n \<notin> dom (pointers v0)" using dom0 trace_name_fresh [of n] by blast
    then have "trace_name n \<notin> dom (pointers v1)"
      by (auto simp: 1(4) trace_name_not_pair)
    then show ?thesis by (simp add: domIff)
  qed
  from vocab_add_ok [OF 1(2) starts_upper_names(3) fresh ltp']
  obtain v2 where 2: "vocab_add v1 (trace_name n) tp = Inr v2" "vocab_ok D r v2"
    "pointers v2 = (pointers v1)(trace_name n \<mapsto> tp)" by blast
  from randint_ok [OF P bound, of w1 r]
  obtain c w2 where 3: "randint lib w1 r pairs_per_item = Inr (c, w2)" "c < nat pairs_per_item"
    by blast
  have role2: "pointers v2 (role_name n j) = pointers v1 (role_name n j)" for j
    by (simp add: 2(3) trace_name_not_pair)
  have fill2: "pointers v2 (filler_name n j) = pointers v1 (filler_name n j)" for j
    by (simp add: 2(3) trace_name_not_pair)
  obtain pc where pc: "pointers v2 (role_name n c) = Some pc"
    using in1 [OF 3(2)] by (auto simp: role2)
  obtain pt where pt: "pointers v2 (filler_name n c) = Some pt"
    using in1 [OF 3(2)] by (auto simp: fill2)
  have g1: "vocab_getitem lib w2 v2 (trace_name n) = Inr (tp, v2, w2)"
    by (rule vocab_getitem_known) (simp add: 2(3))
  have g2: "vocab_getitem lib w2 v2 (role_name n c) = Inr (pc, v2, w2)"
    using pc by (rule vocab_getitem_known)
  have g3: "vocab_getitem lib w2 v2 (filler_name n c) = Inr (pt, v2, w2)"
    using pt by (rule vocab_getitem_known)
  from set_row_ok [OF sh(1) n ltp']
  obtain tr where tr: "set_row (st_traces st) n 0 tp = Inr tr" "shaped tr N (Suc 0) D"
    "\<forall>k. at3 tr n 0 k = at1 tp k" "\<forall>i j k. i \<noteq> n \<longrightarrow> at3 tr i j k = at3 (st_traces st) i j k"
    by blast
  from set_row_ok [OF sh(2) n vocab_ok_len [OF 2(2) pc]]
  obtain cu where cu: "set_row (st_cues st) n 0 pc = Inr cu" "shaped cu N (Suc 0) D"
    "\<forall>k. at3 cu n 0 k = at1 pc k" "\<forall>i j k. i \<noteq> n \<longrightarrow> at3 cu i j k = at3 (st_cues st) i j k"
    by blast
  from set_row_ok [OF sh(3) n vocab_ok_len [OF 2(2) pt]]
  obtain ta where ta: "set_row (st_targets st) n 0 pt = Inr ta" "shaped ta N (Suc 0) D"
    "\<forall>k. at3 ta n 0 k = at1 pt k" "\<forall>i j k. i \<noteq> n \<longrightarrow> at3 ta i j k = at3 (st_targets st) i j k"
    by blast
  define st' where "st' = \<lparr>st_world = w2, st_vocab = v2, st_traces = tr, st_cues = cu,
      st_targets = ta\<rparr>"
  have run: "get_data_item lib pairs_per_item r n st = Inr st'"
    by (simp add: get_data_item_def Let_def v0_def [symmetric] 1(1) tp_def [symmetric]
        2(1) 3(1) g1 g2 g3 tr(1) cu(1) ta(1) st'_def)
  have le02: "pointers v0 \<subseteq>\<^sub>m pointers v2"
  proof -
    have "pointers v1 \<subseteq>\<^sub>m pointers v2" using fresh by (auto simp: 2(3) map_le_def)
    with 1(3) show ?thesis by (rule map_le_trans)
  qed
  have dom2: "dom (pointers v2) \<subseteq> keyset (Suc n)"
    using dom0 keyset_mono [of n] by (auto simp: 2(3) 1(4) keyset_pairs keyset_trace)
  have old: "item_ok lib (nat pairs_per_item) D v2 tr cu ta m" if "m < n" for m
  proof (rule item_ok_mono [OF _ le02])
    show "item_ok lib (nat pairs_per_item) D v0 (st_traces st) (st_cues st) (st_targets st) m"
      using items that by simp
    show "\<forall>k. at3 tr m 0 k = at3 (st_traces st) m 0 k" using tr(4) that by simp
    show "\<forall>k. at3 cu m 0 k = at3 (st_cues st) m 0 k" using cu(4) that by simp
    show "\<forall>k. at3 ta m 0 k = at3 (st_targets st) m 0 k" using ta(4) that by simp
  qed
  have bound2: "bound v2 = bound v1" by (simp add: bound_def role2 fill2)
  have bound_app: "bound v = map (\<lambda>i. bind_vec lib (the (pointers v (role_name n i)))
      (the (pointers v (filler_name n i)))) [0..<nat pairs_per_item]" for v
    by (simp add: bound_def)
  have new: "item_ok lib (nat pairs_per_item) D v2 tr cu ta n"
    unfolding item_ok_def bound_app [symmetric]
  proof (intro conjI)
    show "\<forall>j<nat pairs_per_item.
        role_name n j \<in> dom (pointers v2) \<and> filler_name n j \<in> dom (pointers v2)"
      using in1 by (simp add: domIff role2 fill2)
    show "pointers v2 (trace_name n) = Some (normalize lib (superpose (bound v2)))"
      by (simp add: 2(3) tp_def bound2)
    show "\<forall>k<D. at3 tr n 0 k = at1 (the (pointers v2 (trace_name n))) k"
      using tr(3) by (simp add: 2(3))
    show "\<exists>c<nat pairs_per_item. \<forall>k<D.
        at3 cu n 0 k = at1 (the (pointers v2 (role_name n c))) k \<and>
        at3 ta n 0 k = at1 (the (pointers v2 (filler_name n c))) k"
      using 3(2) cu(3) ta(3) pc pt by auto
  qed
  have all: "\<forall>m<Suc n. item_ok lib (nat pairs_per_item) D v2 tr cu ta m"
    using old new by (auto simp: less_Suc_eq)
  have "loop_inv lib (nat pairs_per_item) D r N (Suc n) st'"
    using 2(2) tr(2) cu(2) ta(2) dom2 all by (simp add: loop_inv_def st'_def)
  with run show ?thesis by blast
qed

lemma get_data_loop_ok:
  assumes P: "pairs_ok lib pairs_per_item"
  shows "n \<le> N \<Longrightarrow> loop_inv lib (nat pairs_per_item) D r N n st \<Longrightarrow>
    \<exists>st'. get_data_loop lib pairs_per_item r [n..<N] st = Inr st' \<and>
      loop_inv lib (nat pairs_per_item) D r N N st'"
proof (induction "N - n" arbitrary: n st)
  case 0
  then show ?case by simp
next
  case (Suc d)
  then have n: "n < N" by simp
  from get_data_item_ok [OF Suc.prems(2) n P]
  obtain st1 where 1: "get_data_item lib pairs_per_item r n st = Inr st1"
    "loop_inv lib (nat pairs_per_item) D r N (Suc n) st1" by blast
  have "d = N - Suc n" using Suc.hyps(2) by simp
  from Suc.hyps(1) [OF this _ 1(2)] n
  obtain st' where 2: "get_data_loop lib pairs_per_item r [Suc n..<N] st1 = Inr st'"
    "loop_inv lib (nat pairs_per_item) D r N N st'" by auto
  have "get_data_loop lib pairs_per_item r [n..<N] st = Inr st'"
    using n by (simp add: upt_conv_Cons 1(1) 2(1))
  with 2(2) show ?case by blast
qed

lemma get_data_total:
  fixes lib :: "('a::{zero,one,plus}, 'g) library"
  assumes items: "0 \<le> n_items" and pairs: "n_items = 0 \<or> pairs_ok lib pairs_per_item"
    and dim: "1 \<le> vec_d" and seed: "valid_seed vocab_seed"
    and matrix: "zeros_check lib [0, nat vec_d] = None"
    and arrays: "zeros_check lib [nat n_items, 1, nat vec_d] = None"
  shows "\<exists>tr cu ta v w' r.
      get_data lib w n_items pairs_per_item vec_d vocab_seed = Inr ((tr, cu, ta, v), w') \<and>
      vocab_ok (nat vec_d) r v \<and>
      shaped tr (nat n_items) (Suc 0) (nat vec_d) \<and>
      shaped cu (nat n_items) (Suc 0) (nat vec_d) \<and>
      shaped ta (nat n_items) (Suc 0) (nat vec_d) \<and>
      (\<forall>m<nat n_items. item_ok lib (nat pairs_per_item) (nat vec_d) v tr cu ta m)"
proof -
  define r where "r = RngObj (n_objs w)"
  obtain w0 where rs: "RandomState lib w vocab_seed = Inr (r, w0)"
    using seed by (cases vocab_seed) (simp_all add: RandomState_def r_def)
  define v0 :: "'a vocabulary" where "v0 = \<lparr>dimensions = nat vec_d, rng = r, max_similarity = 1,
      keys = [], pointers = Map.empty,
      vectors = \<lparr>rows2 = 0, cols2 = nat vec_d, at2 = (\<lambda>i k. 0)\<rparr>\<rparr>"
  define z :: "'a arr3" where
    "z = \<lparr>dim0 = nat n_items, dim1 = nat 1, dim2 = nat vec_d, at3 = (\<lambda>i j k. 0)\<rparr>"
  define st0 where "st0 = \<lparr>st_world = w0, st_vocab = v0, st_traces = z, st_cues = z,
      st_targets = z\<rparr>"
  have vc: "Vocabulary lib vec_d r (1::'a) = Inr v0"
    using dim matrix by (simp add: Vocabulary_def v0_def)
  have zs: "np_zeros lib n_items 1 vec_d = Inr z"
    using items dim arrays by (simp add: np_zeros_def z_def)
  have start: "get_data lib w n_items pairs_per_item vec_d vocab_seed
      = bind_err (get_data_loop lib pairs_per_item r [0..<nat n_items] st0)
          (\<lambda>st. Inr ((st_traces st, st_cues st, st_targets st, st_vocab st), st_world st))"
    by (simp add: get_data_def rs vc zs st0_def)
  have inv0: "loop_inv lib (nat pairs_per_item) (nat vec_d) r (nat n_items) 0 st0"
    by (simp add: loop_inv_def st0_def v0_def z_def vocab_ok_def shaped_def)
  have "\<exists>st'. get_data_loop lib pairs_per_item r [0..<nat n_items] st0 = Inr st' \<and>
      loop_inv lib (nat pairs_per_item) (nat vec_d) r (nat n_items) (nat n_items) st'"
  proof (cases "n_items = 0")
    case True
    then show ?thesis using inv0 by simp
  next
    case False
    then have "pairs_ok lib pairs_per_item" using pairs by simp
    from get_data_loop_ok [OF this _ inv0] show ?thesis by simp
  qed
  then obtain st' where st':
    "get_data_loop lib pairs_per_item r [0..<nat n_items] st0 = Inr st'"
    "loop_inv lib (nat pairs_per_item) (nat vec_d) r (nat n_items) (nat n_items) st'"
    by blast
  have "get_data lib w n_items pairs_per_item vec_d vocab_seed
      = Inr ((st_traces st', st_cues st', st_targets st', st_vocab st'), st_world st')"
    by (simp add: start st'(1))
  then show ?thesis using st'(2) unfolding loop_inv_def by blast
qed

lemma bind_err_InrD: "bind_err m f = Inr y \<Longrightarrow> \<exists>x. m = Inr x \<and> f x = Inr y"
  by (cases m) simp_all


lemma vocab_parse_returns_pairs:
  assumes "vocab_parse lib w v (trace_text pairs_per_item n) = Inr x"
  shows "1 \<le> pairs_per_item \<and> nat pairs_per_item < max_expr_depth lib"
proof (cases "1 \<le> pairs_per_item")
  case False
  then have "parse_text (trace_text pairs_per_item n) = Inl SyntaxError"
    by (simp add: parse_trace_text_empty)
  with assms show ?thesis by (simp add: vocab_parse_def)
next
  case True
  define terms where
    "terms = map (\<lambda>i. [role_name n i, filler_name n i]) [0..<nat pairs_per_item]"
  have pt: "parse_text (trace_text pairs_per_item n) = Inr terms"
    using parse_trace_text [OF True] by (simp add: terms_def)
  have "expr_depth terms = Suc (nat pairs_per_item)"
    unfolding terms_def using True by (simp add: expr_depth_pairs)
  moreover have "\<not> max_expr_depth lib < expr_depth terms"
    using assms by (auto simp: vocab_parse_def pt split: if_splits)
  ultimately show ?thesis using True by simp
qed

lemma vocab_parse_too_deep:
  assumes "1 \<le> pairs_per_item" and "max_expr_depth lib \<le> nat pairs_per_item"
  shows "vocab_parse lib w v (trace_text pairs_per_item n) = Inl RecursionError"
proof -
  define terms where
    "terms = map (\<lambda>i. [role_name n i, filler_name n i]) [0..<nat pairs_per_item]"
  have pt: "parse_text (trace_text pairs_per_item n) = Inr terms"
    using parse_trace_text [OF assms(1)] by (simp add: terms_def)
  have "expr_depth terms = Suc (nat pairs_per_item)"
    unfolding terms_def using assms(1) by (simp add: expr_depth_pairs)
  then have "max_expr_depth lib < expr_depth terms" using assms(2) by simp
  then show ?thesis by (simp add: vocab_parse_def pt)
qed

lemma randint_returns_bound:
  "randint lib w r high = Inr x \<Longrightarrow> high \<le> randint_max lib"
  by (auto simp: randint_def split: if_splits)

lemma get_data_item_returns_pairs:
  assumes "get_data_item lib pairs_per_item r n st = Inr st'"
  shows "pairs_ok lib pairs_per_item"
proof -
  from assms obtain x where
    1: "vocab_parse lib (st_world st) (st_vocab st) (trace_text pairs_per_item n) = Inr x"
    and 2: "(case x of (trace_ptr, v1, w1) \<Rightarrow>
        let trace_ptr = normalize lib trace_ptr in
        bind_err (vocab_add v1 (trace_name n) trace_ptr) (\<lambda>v2.
        bind_err (randint lib w1 r pairs_per_item) (\<lambda>(cue_idx, w2).
        bind_err (vocab_getitem lib w2 v2 (trace_name n)) (\<lambda>(p, v3, w3).
        bind_err (set_row (st_traces st) n 0 p) (\<lambda>traces.
        bind_err (vocab_getitem lib w3 v3 (role_name n cue_idx)) (\<lambda>(c, v4, w4).
        bind_err (set_row (st_cues st) n 0 c) (\<lambda>cues.
        bind_err (vocab_getitem lib w4 v4 (filler_name n cue_idx)) (\<lambda>(t, v5, w5).
        bind_err (set_row (st_targets st) n 0 t) (\<lambda>targets.
        Inr \<lparr>st_world = w5, st_vocab = v5, st_traces = traces, st_cues = cues,
             st_targets = targets\<rparr>))))))))) = Inr st'"
    unfolding get_data_item_def Let_def by (blast dest: bind_err_InrD)
  obtain tp v1 w1 where x: "x = (tp, v1, w1)" by (cases x)
  from 2 obtain v2 where
    "bind_err (randint lib w1 r pairs_per_item) (\<lambda>(cue_idx, w2).
        bind_err (vocab_getitem lib w2 v2 (trace_name n)) (\<lambda>(p, v3, w3).
        bind_err (set_row (st_traces st) n 0 p) (\<lambda>traces.
        bind_err (vocab_getitem lib w3 v3 (role_name n cue_idx)) (\<lambda>(c, v4, w4).
        bind_err (set_row (st_cues st) n 0 c) (\<lambda>cues.
        bind_err (vocab_getitem lib w4 v4 (filler_name n cue_idx)) (\<lambda>(t, v5, w5).
        bind_err (set_row (st_targets st) n 0 t) (\<lambda>targets.
        Inr \<lparr>st_world = w5, st_vocab = v5, st_traces = traces, st_cues = cues,
             st_targets = targets\<rparr>))))))) = Inr st'"
    unfolding x prod.case Let_def by (blast dest: bind_err_InrD)
  then obtain y where "randint lib w1 r pairs_per_item = Inr y"
    by (blast dest: bind_err_InrD)
  then have "pairs_per_item \<le> randint_max lib" by (rule randint_returns_bound)
  with vocab_parse_returns_pairs [OF 1] show ?thesis by (simp add: pairs_ok_def)
qed

lemma get_data_returns_only_if:
  fixes lib :: "('a::{zero,one,plus}, 'g) library"
  assumes ret: "get_data lib w n_items pairs_per_item vec_d vocab_seed = Inr res"
  shows "valid_seed vocab_seed \<and> 1 \<le> vec_d \<and> zeros_check lib [0, nat vec_d] = None \<and>
    0 \<le> n_items \<and> zeros_check lib [nat n_items, 1, nat vec_d] = None \<and>
    (n_items = 0 \<or> pairs_ok lib pairs_per_item)"
proof -
  from ret obtain x where rs: "RandomState lib w vocab_seed = Inr x"
    and 1: "(case x of (r, w0) \<Rightarrow>
      bind_err (Vocabulary lib vec_d r 1) (\<lambda>vocab.
      bind_err (np_zeros lib n_items 1 vec_d) (\<lambda>traces.
      bind_err (np_zeros lib n_items 1 vec_d) (\<lambda>cues.
      bind_err (np_zeros lib n_items 1 vec_d) (\<lambda>targets.
      bind_err (get_data_loop lib pairs_per_item r [0..<nat n_items]
                 \<lparr>st_world = w0, st_vocab = vocab, st_traces = traces, st_cues = cues,
                  st_targets = targets\<rparr>) (\<lambda>st.
      Inr ((st_traces st, st_cues st, st_targets st, st_vocab st), st_world st))))))) = Inr res"
    unfolding get_data_def by (blast dest: bind_err_InrD)
  obtain r w0 where x: "x = (r, w0)" by (cases x)
  have seed: "valid_seed vocab_seed"
    using rs by (cases vocab_seed) (auto simp: RandomState_def valid_seed_def split: if_splits)
  from 1 obtain vocab :: "'a vocabulary" where vc: "Vocabulary lib vec_d r 1 = Inr vocab"
    and 2: "bind_err (np_zeros lib n_items 1 vec_d) (\<lambda>traces.
      bind_err (np_zeros lib n_items 1 vec_d) (\<lambda>cues.
      bind_err (np_zeros lib n_items 1 vec_d) (\<lambda>targets.
      bind_err (get_data_loop lib pairs_per_item r [0..<nat n_items]
                 \<lparr>st_world = w0, st_vocab = vocab, st_traces = traces, st_cues = cues,
                  st_targets = targets\<rparr>) (\<lambda>st.
      Inr ((st_traces st, st_cues st, st_targets st, st_vocab st), st_world st))))) = Inr res"
    unfolding x prod.case by (blast dest: bind_err_InrD)
  have dim: "1 \<le> vec_d \<and> zeros_check lib [0, nat vec_d] = None"
    using vc by (auto simp: Vocabulary_def split: if_splits option.splits)
  from 2 obtain traces :: "'a arr3" where zs: "np_zeros lib n_items 1 vec_d = Inr traces"
    and 3: "bind_err (np_zeros lib n_items 1 vec_d) (\<lambda>cues.
      bind_err (np_zeros lib n_items 1 vec_d) (\<lambda>targets.
      bind_err (get_data_loop lib pairs_per_item r [0..<nat n_items]
                 \<lparr>st_world = w0, st_vocab = vocab, st_traces = traces, st_cues = cues,
                  st_targets = targets\<rparr>) (\<lambda>st.
      Inr ((st_traces st, st_cues st, st_targets st, st_vocab st), st_world st)))) = Inr res"
    by (blast dest: bind_err_InrD)
  have items: "0 \<le> n_items \<and> zeros_check lib [nat n_items, 1, nat vec_d] = None"
    using zs by (auto simp: np_zeros_def split: if_splits option.splits)
  have pairs: "pairs_ok lib pairs_per_item" if "n_items \<noteq> 0"
  proof -
    from 3 obtain cues targets :: "'a arr3" and st' where
      "get_data_loop lib pairs_per_item r [0..<nat n_items]
          \<lparr>st_world = w0, st_vocab = vocab, st_traces = traces, st_cues = cues,
           st_targets = targets\<rparr> = Inr st'"
      by (blast dest: bind_err_InrD)
    moreover have "[0..<nat n_items] = 0 # [Suc 0..<nat n_items]"
      using that items by (simp add: upt_conv_Cons)
    ultimately obtain st1 where "get_data_item lib pairs_per_item r 0
          \<lparr>st_world = w0, st_vocab = vocab, st_traces = traces, st_cues = cues,
           st_targets = targets\<rparr> = Inr st1"
      by (auto dest: bind_err_InrD)
    then show ?thesis by (rule get_data_item_returns_pairs)
  qed
  from seed dim items pairs show ?thesis by blast
qed

lemma get_data_returns_iff:
  fixes lib :: "('a::{zero,one,plus}, 'g) library"
  shows "(\<exists>res. get_data lib w n_items pairs_per_item vec_d vocab_seed = Inr res)
    = (valid_seed vocab_seed \<and> 1 \<le> vec_d \<and> zeros_check lib [0, nat vec_d] = None \<and>
       0 \<le> n_items \<and> zeros_check lib [nat n_items, 1, nat vec_d] = None \<and>
       (n_items = 0 \<or> pairs_ok lib pairs_per_item))"
proof
  assume "\<exists>res. get_data lib w n_items pairs_per_item vec_d vocab_seed = Inr res"
  then show "valid_seed vocab_seed \<and> 1 \<le> vec_d \<and> zeros_check lib [0, nat vec_d] = None \<and>
       0 \<le> n_items \<and> zeros_check lib [nat n_items, 1, nat vec_d] = None \<and>
       (n_items = 0 \<or> pairs_ok lib pairs_per_item)"
    by (blast dest: get_data_returns_only_if)
next
  assume "valid_seed vocab_seed \<and> 1 \<le> vec_d \<and> zeros_check lib [0, nat vec_d] = None \<and>
       0 \<le> n_items \<and> zeros_check lib [nat n_items, 1, nat vec_d] = None \<and>
       (n_items = 0 \<or> pairs_ok lib pairs_per_item)"
  then show "\<exists>res. get_data lib w n_items pairs_per_item vec_d vocab_seed = Inr res"
    using get_data_total [of n_items lib pairs_per_item vec_d vocab_seed w] by auto
qed

section \<open>Two calls of \<open>get_data\<close>\<close>


lemma rng_state_update [simp]: "rng_state (rng_put w r g) r = g"
  by (cases r) (simp_all add: rng_state_def rng_put_def)

lemma same_value_simp [simp]:
  "same_value r1 r2 (p1, v1, w1) (p2, v2, w2) = (p1 = p2 \<and> same_run r1 r2 (v1, w1) (v2, w2))"
  by (simp add: same_value_def)

















section \<open>What \<open>get_data\<close> returns\<close>

text \<open>The model run by the kernel: one item of two pairs in dimension 2, seed 5.\<close>

lemma get_data_demo_run:
  "(case get_data demo_lib demo_world 1 2 2 (Some 5) of
      Inl e \<Rightarrow> None
    | Inr ((tr, cu, ta, v), w) \<Rightarrow>
        Some (keys v, map (at3 tr 0 0) [0..<2], map (at3 cu 0 0) [0..<2],
              map (at3 ta 0 0) [0..<2]))
   = Some ([''ROLE_0_0'', ''FILLER_0_0'', ''ROLE_0_1'', ''FILLER_0_1'', ''TRACE_0''],
           [302, 300], [9, 10], [11, 12])"
  by code_simp

text \<open>
  The limits of the libraries, as the model has them: an array of 2^63 items or a
  vocabulary of dimension 2^63 is refused by \<open>np.zeros\<close>, and a trace of as many pairs as
  \<open>eval\<close> nests expressions is refused by the interpreter.
\<close>

lemma get_data_too_many_items:
  "get_data demo_lib demo_world (2 ^ 63) 1 1 (Some 5) = Inl ValueError"
proof -
  obtain r w0 where rs: "RandomState demo_lib demo_world (Some 5) = Inr (r, w0)"
    by (simp add: RandomState_def valid_seed_def)
  obtain vocab :: "int vocabulary" where vc: "Vocabulary demo_lib 1 r 1 = Inr vocab"
    by (simp add: Vocabulary_def zeros_check_def demo_lib_def)
  have zs: "np_zeros demo_lib (2 ^ 63) 1 1 = (Inl ValueError :: error + int arr3)"
    by (simp add: np_zeros_def zeros_check_def)
  show ?thesis
    unfolding get_data_def rs bind_err_simps prod.case vc zs by (rule refl)
qed

lemma get_data_dimension_too_large:
  "get_data demo_lib demo_world 1 1 (2 ^ 63) (Some 5) = Inl ValueError"
proof -
  obtain r w0 where rs: "RandomState demo_lib demo_world (Some 5) = Inr (r, w0)"
    by (simp add: RandomState_def valid_seed_def)
  have vc: "Vocabulary demo_lib (2 ^ 63) r 1 = (Inl ValueError :: error + int vocabulary)"
    by (simp add: Vocabulary_def zeros_check_def)
  show ?thesis
    unfolding get_data_def rs bind_err_simps prod.case vc by (rule refl)
qed

lemma get_data_too_many_pairs:
  "get_data demo_lib demo_world 1 3000 1 (Some 5) = Inl RecursionError"
proof -
  obtain r w0 where rs: "RandomState demo_lib demo_world (Some 5) = Inr (r, w0)"
    by (simp add: RandomState_def valid_seed_def)
  obtain vocab :: "int vocabulary" where vc: "Vocabulary demo_lib 1 r 1 = Inr vocab"
    by (simp add: Vocabulary_def zeros_check_def demo_lib_def)
  obtain z :: "int arr3" where zs: "np_zeros demo_lib 1 1 1 = Inr z"
    by (simp add: np_zeros_def zeros_check_def demo_lib_def)
  have deep: "max_expr_depth demo_lib \<le> nat 3000" by (simp add: demo_lib_def)
  have item: "get_data_item demo_lib 3000 r 0 st = Inl RecursionError" for st
    unfolding get_data_item_def Let_def
    by (simp add: vocab_parse_too_deep [OF _ deep])
  have one: "[0..<nat 1] = [0]" by simp
  show ?thesis
    unfolding get_data_def rs bind_err_simps prod.case vc zs one get_data_loop.simps item
    by (rule refl)
qed

text \<open>
  Claim C6, as amended by the seed and the limits of the libraries. For all
  n_items >= 0, pairs_per_item >= 1 and vec_d >= 1, every seed that is \<open>None\<close> or an
  integer of [0, 2^32), shapes (0, vec_d) and (n_items, 1, vec_d) that \<open>np.zeros\<close>
  creates, and a number of pairs that \<open>eval\<close> and \<open>randint\<close> accept, \<open>get_data\<close> returns;
  traces, cues and targets have the shape (n_items, 1, vec_d); and for every item \<open>n\<close>
  there is one index \<open>k\<close> among the item's pairs such that the cue row is the
  vocabulary's vector of ROLE_n_k and the target row is the vocabulary's vector of
  FILLER_n_k.
\<close>

theorem get_data_shapes_and_pairs:
  fixes lib :: "('a::{zero,one,plus}, 'g) library"
  assumes "0 \<le> n_items" and "1 \<le> pairs_per_item" and "1 \<le> vec_d"
    and "valid_seed vocab_seed"
    and "zeros_check lib [0, nat vec_d] = None"
    and "zeros_check lib [nat n_items, 1, nat vec_d] = None"
    and "nat pairs_per_item < max_expr_depth lib"
    and "pairs_per_item \<le> randint_max lib"
  shows "\<exists>traces cues targets vocab w'.
      get_data lib w n_items pairs_per_item vec_d vocab_seed
        = Inr ((traces, cues, targets, vocab), w') \<and>
      (dim0 traces, dim1 traces, dim2 traces) = (nat n_items, 1, nat vec_d) \<and>
      (dim0 cues, dim1 cues, dim2 cues) = (nat n_items, 1, nat vec_d) \<and>
      (dim0 targets, dim1 targets, dim2 targets) = (nat n_items, 1, nat vec_d) \<and>
      (\<forall>n<nat n_items. \<exists>k<nat pairs_per_item. \<exists>c t.
          pointers vocab (role_name n k) = Some c \<and> len1 c = nat vec_d \<and>
          pointers vocab (filler_name n k) = Some t \<and> len1 t = nat vec_d \<and>
          (\<forall>j<nat vec_d. at3 cues n 0 j = at1 c j \<and> at3 targets n 0 j = at1 t j))"
proof -
  have "pairs_ok lib pairs_per_item" using assms by (simp add: pairs_ok_def)
  with get_data_total [of n_items lib pairs_per_item vec_d vocab_seed w] assms
  obtain tr cu ta v w' r where res:
    "get_data lib w n_items pairs_per_item vec_d vocab_seed = Inr ((tr, cu, ta, v), w')"
    and ok: "vocab_ok (nat vec_d) r v"
    and sh: "shaped tr (nat n_items) (Suc 0) (nat vec_d)"
      "shaped cu (nat n_items) (Suc 0) (nat vec_d)" "shaped ta (nat n_items) (Suc 0) (nat vec_d)"
    and items: "\<forall>m<nat n_items. item_ok lib (nat pairs_per_item) (nat vec_d) v tr cu ta m"
    by auto
  have pair: "\<exists>k<nat pairs_per_item. \<exists>c t.
          pointers v (role_name n k) = Some c \<and> len1 c = nat vec_d \<and>
          pointers v (filler_name n k) = Some t \<and> len1 t = nat vec_d \<and>
          (\<forall>j<nat vec_d. at3 cu n 0 j = at1 c j \<and> at3 ta n 0 j = at1 t j)"
    if "n < nat n_items" for n
  proof -
    have it: "item_ok lib (nat pairs_per_item) (nat vec_d) v tr cu ta n" using items that by simp
    then obtain k where k: "k < nat pairs_per_item"
      "\<forall>j<nat vec_d. at3 cu n 0 j = at1 (the (pointers v (role_name n k))) j \<and>
                     at3 ta n 0 j = at1 (the (pointers v (filler_name n k))) j"
      unfolding item_ok_def by blast
    from it k(1) obtain c t where ct: "pointers v (role_name n k) = Some c"
      "pointers v (filler_name n k) = Some t"
      unfolding item_ok_def by (meson domD)
    have "len1 c = nat vec_d" "len1 t = nat vec_d"
      using vocab_ok_len [OF ok ct(1)] vocab_ok_len [OF ok ct(2)] by simp_all
    with k ct show ?thesis by auto
  qed
  from res sh pair show ?thesis unfolding shaped_def by auto
qed

theorem get_data_shapes_and_pairs_witness:
  "(0::int) \<le> 2 \<and> (1::int) \<le> 2 \<and> valid_seed (Some 5) \<and>
   zeros_check demo_lib [0, nat 2] = None \<and> zeros_check demo_lib [nat 2, 1, nat 2] = None \<and>
   nat 2 < max_expr_depth demo_lib \<and> 2 \<le> randint_max demo_lib \<and>
   (\<exists>traces cues targets vocab w'.
      get_data demo_lib demo_world 2 2 2 (Some 5) = Inr ((traces, cues, targets, vocab), w') \<and>
      (dim0 cues, dim1 cues, dim2 cues) = (2, 1, 2) \<and>
      (dim0 targets, dim1 targets, dim2 targets) = (2, 1, 2) \<and>
      (\<exists>k<2. \<exists>c t.
          pointers vocab (role_name 1 k) = Some c \<and> pointers vocab (filler_name 1 k) = Some t \<and>
          (\<forall>j<2. at3 cues 1 0 j = at1 c j \<and> at3 targets 1 0 j = at1 t j)))"
proof -
  have limits: "valid_seed (Some 5)" "zeros_check demo_lib [0, nat 2] = None"
    "zeros_check demo_lib [nat 2, 1, nat 2] = None" "nat 2 < max_expr_depth demo_lib"
    "2 \<le> randint_max demo_lib"
    by (simp_all add: valid_seed_def zeros_check_def demo_lib_def)
  have "\<exists>traces cues targets vocab w'.
      get_data demo_lib demo_world 2 2 2 (Some 5) = Inr ((traces, cues, targets, vocab), w') \<and>
      (dim0 traces, dim1 traces, dim2 traces) = (nat 2, 1, nat 2) \<and>
      (dim0 cues, dim1 cues, dim2 cues) = (nat 2, 1, nat 2) \<and>
      (dim0 targets, dim1 targets, dim2 targets) = (nat 2, 1, nat 2) \<and>
      (\<forall>n<nat 2. \<exists>k<nat 2. \<exists>c t.
          pointers vocab (role_name n k) = Some c \<and> len1 c = nat 2 \<and>
          pointers vocab (filler_name n k) = Some t \<and> len1 t = nat 2 \<and>
          (\<forall>j<nat 2. at3 cues n 0 j = at1 c j \<and> at3 targets n 0 j = at1 t j))"
    by (rule get_data_shapes_and_pairs) (use limits in simp_all)
  then obtain traces cues targets vocab w' where
    run: "get_data demo_lib demo_world 2 2 2 (Some 5) = Inr ((traces, cues, targets, vocab), w')"
    and sh: "(dim0 cues, dim1 cues, dim2 cues) = (nat 2, 1, nat 2)"
      "(dim0 targets, dim1 targets, dim2 targets) = (nat 2, 1, nat 2)"
    and pairs: "\<forall>n<nat 2. \<exists>k<nat 2. \<exists>c t.
          pointers vocab (role_name n k) = Some c \<and> len1 c = nat 2 \<and>
          pointers vocab (filler_name n k) = Some t \<and> len1 t = nat 2 \<and>
          (\<forall>j<nat 2. at3 cues n 0 j = at1 c j \<and> at3 targets n 0 j = at1 t j)"
    by blast
  have "(1::nat) < nat 2" by simp
  with pairs have "\<exists>k<nat 2. \<exists>c t.
          pointers vocab (role_name 1 k) = Some c \<and> len1 c = nat 2 \<and>
          pointers vocab (filler_name 1 k) = Some t \<and> len1 t = nat 2 \<and>
          (\<forall>j<nat 2. at3 cues 1 0 j = at1 c j \<and> at3 targets 1 0 j = at1 t j)"
    by blast
  then have "\<exists>k<2. \<exists>c t.
          pointers vocab (role_name 1 k) = Some c \<and> pointers vocab (filler_name 1 k) = Some t \<and>
          (\<forall>j<2. at3 cues 1 0 j = at1 c j \<and> at3 targets 1 0 j = at1 t j)"
    by auto
  with run sh limits show ?thesis by auto
qed

text \<open>
  Claim C6 as stated holds for no integer seed outside [0, 2^32): \<open>RandomState\<close> refuses
  it and \<open>get_data\<close> returns nothing.
\<close>

theorem get_data_negative_seed_fails:
  "get_data demo_lib demo_world 1 1 1 (Some (- 1)) = Inl ValueError"
  by (simp add: get_data_def RandomState_def valid_seed_def)

section \<open>The trace of an item\<close>






section \<open>Two calls with the same arguments\<close>



section \<open>Where the two functions fail\<close>









section \<open>The simulator is open whenever it is operated\<close>

text \<open>
  Claim C7 as stated ends with: no simulator operation is ever invoked on a closed
  simulator. The notebooks do call \<open>sim.trange()\<close> on a simulator whose \<open>with\<close> block
  has ended, for the time axis of a plot.
\<close>

theorem trange_called_after_close:
  "(Trange, Closed) \<in> set (exec False Unbound from_tensorflow)"
  by (simp add: from_tensorflow_def)

text \<open>
  Claim C7, as amended. In each of the three notebooks, whether \<open>do_training\<close> is set or
  not, every call of step, run_steps, run, predict, compile, fit or evaluate (and of
  save_params and load_params) is made on a simulator that has been created and not yet
  closed: inside its \<open>with\<close> block, or between \<open>sim = Simulator(...)\<close> and
  \<open>sim.close()\<close>. What the notebooks ask of a closed simulator is \<open>sim.trange()\<close> and
  \<open>sim.data\<close> only.
\<close>

theorem simulator_calls_on_open:
  "on_open (exec do_training Unbound spa_retrieval) \<and>
   on_open (exec do_training Unbound from_tensorflow) \<and>
   on_open (exec do_training Unbound keras_model)"
  by (cases do_training)
    (simp_all add: on_open_def spa_retrieval_def from_tensorflow_def keras_model_def)

end
